theory Spec2Isabelle
  imports Complex_Main
begin

section \<open>Python exceptions and floats\<close>

text \<open>
  The exceptions the modelled code can raise. Every one of them is a subclass of
  Python's \<open>Exception\<close>, so an \<open>except Exception\<close> clause catches all of them.
\<close>

datatype error =
  NameError | KeyError | TypeError | ValueError | OverflowError | ZeroDivisionError | OSError

text \<open>
  A Python \<open>float\<close> is an IEEE 754 binary64 value: a finite number (kept as the rational
  it denotes), an infinity or a NaN. The sign of a zero is not kept: the modelled code
  never divides by a zero without raising and never prints one.
\<close>

datatype pyfloat = Fl rat | PosInf | NegInf | NaN

text \<open>The number of binary digits of a positive integer (Python's \<open>int.bit_length\<close>).\<close>

function bit_length :: "int \<Rightarrow> int" where
  "bit_length n = (if n \<le> 0 then 0 else 1 + bit_length (n div 2))"
  by pat_completeness auto
termination
  by (relation "measure nat") auto

declare bit_length.simps [simp del]

text \<open>\<open>ilog2 x\<close> is the binary exponent of a positive rational: \<open>2 ^ ilog2 x \<le> x < 2 ^ (ilog2 x + 1)\<close>.\<close>

definition ilog2 :: "rat \<Rightarrow> int" where
  "ilog2 x =
     (let e0 = bit_length (fst (quotient_of x)) - bit_length (snd (quotient_of x))
      in if 2 powi e0 \<le> x then e0 else e0 - 1)"

text \<open>Rounding to the nearest integer, ties to the even one (Python's \<open>round\<close>).\<close>

definition round_half_even :: "rat \<Rightarrow> int" where
  "round_half_even x =
     (let f = \<lfloor>x\<rfloor>; r = x - of_int f
      in if r < 1 / 2 then f else if 1 / 2 < r then f + 1 else if even f then f else f + 1)"

text \<open>
  The spacing of binary64 values around a positive rational: 53 significant bits, and
  the fixed spacing \<open>2 ^ -1074\<close> of the subnormal range below \<open>2 ^ -1022\<close>.
\<close>

definition ulp :: "rat \<Rightarrow> rat" where
  "ulp a = 2 powi (max (ilog2 a) (- 1022) - 52)"

text \<open>The magnitude of the binary64 value nearest to a positive rational, before the overflow check.\<close>

definition rd :: "rat \<Rightarrow> rat" where
  "rd a = of_int (round_half_even (a / ulp a)) * ulp a"

text \<open>
  Rounding a rational result to binary64 (round to nearest, ties to even): a magnitude
  that rounds to \<open>2 ^ 1024\<close> or more overflows to an infinity.
\<close>

definition rnd :: "rat \<Rightarrow> pyfloat" where
  "rnd x =
     (if x = 0 then Fl 0
      else if 2 ^ 1024 \<le> rd \<bar>x\<bar> then (if 0 < x then PosInf else NegInf)
      else Fl (if 0 < x then rd \<bar>x\<bar> else - rd \<bar>x\<bar>))"

text \<open>The largest finite binary64 value (\<open>sys.float_info.max\<close>).\<close>

definition float_max :: rat where
  "float_max = 2 ^ 1024 - 2 ^ 971"

text \<open>A float literal of the source text denotes the binary64 value nearest to its decimal.\<close>

definition lit :: "rat \<Rightarrow> pyfloat" where
  "lit q = rnd q"

subsection \<open>Comparison and arithmetic of floats\<close>

text \<open>A comparison with a NaN operand is false; the infinities lie outside all finite values.\<close>

fun rank :: "pyfloat \<Rightarrow> (int \<times> rat) option" where
  "rank (Fl x) = Some (0, x)"
| "rank PosInf = Some (1, 0)"
| "rank NegInf = Some (- 1, 0)"
| "rank NaN = None"

definition flt :: "pyfloat \<Rightarrow> pyfloat \<Rightarrow> bool" where
  "flt a b =
     (case (rank a, rank b) of
        (Some (i, x), Some (j, y)) \<Rightarrow> i < j \<or> (i = j \<and> x < y)
      | _ \<Rightarrow> False)"

definition fle :: "pyfloat \<Rightarrow> pyfloat \<Rightarrow> bool" where
  "fle a b =
     (case (rank a, rank b) of
        (Some (i, x), Some (j, y)) \<Rightarrow> i < j \<or> (i = j \<and> x \<le> y)
      | _ \<Rightarrow> False)"

fun fabs :: "pyfloat \<Rightarrow> pyfloat" where
  "fabs (Fl x) = Fl \<bar>x\<bar>"
| "fabs PosInf = PosInf"
| "fabs NegInf = PosInf"
| "fabs NaN = NaN"

fun fsub :: "pyfloat \<Rightarrow> pyfloat \<Rightarrow> pyfloat" where
  "fsub NaN b = NaN"
| "fsub a NaN = NaN"
| "fsub (Fl x) (Fl y) = rnd (x - y)"
| "fsub (Fl x) PosInf = NegInf"
| "fsub (Fl x) NegInf = PosInf"
| "fsub PosInf PosInf = NaN"
| "fsub PosInf b = PosInf"
| "fsub NegInf NegInf = NaN"
| "fsub NegInf b = NegInf"

fun fsign :: "pyfloat \<Rightarrow> int" where
  "fsign (Fl x) = (if x < 0 then - 1 else if 0 < x then 1 else 0)"
| "fsign PosInf = 1"
| "fsign NegInf = - 1"
| "fsign NaN = 0"

fun fmul :: "pyfloat \<Rightarrow> pyfloat \<Rightarrow> pyfloat" where
  "fmul NaN b = NaN"
| "fmul a NaN = NaN"
| "fmul (Fl x) (Fl y) = rnd (x * y)"
| "fmul a b =
     (if fsign a * fsign b = 0 then NaN else if 0 < fsign a * fsign b then PosInf else NegInf)"

text \<open>
  Python's \<open>/\<close> on floats raises \<open>ZeroDivisionError\<close> for a zero divisor, whatever
  the dividend; otherwise it is the IEEE division.
\<close>

fun fdiv :: "pyfloat \<Rightarrow> pyfloat \<Rightarrow> error + pyfloat" where
  "fdiv a (Fl y) =
     (if y = 0 then Inl ZeroDivisionError
      else case a of
        Fl x \<Rightarrow> Inr (rnd (x / y))
      | NaN \<Rightarrow> Inr NaN
      | _ \<Rightarrow> Inr (if 0 < fsign a * fsign (Fl y) then PosInf else NegInf))"
| "fdiv a NaN = Inr NaN"
| "fdiv (Fl x) b = Inr (Fl 0)"
| "fdiv a b = Inr NaN"

subsection \<open>Conversions between floats and integers\<close>

text \<open>\<open>round(x)\<close> on a float: the nearest integer, ties to even; an infinity or a NaN raises.\<close>

fun py_round :: "pyfloat \<Rightarrow> error + int" where
  "py_round (Fl x) = Inr (round_half_even x)"
| "py_round NaN = Inl ValueError"
| "py_round a = Inl OverflowError"

text \<open>\<open>int(x)\<close> on a float truncates toward zero; an infinity or a NaN raises.\<close>

definition trunc :: "rat \<Rightarrow> int" where
  "trunc x = (if 0 \<le> x then \<lfloor>x\<rfloor> else \<lceil>x\<rceil>)"

fun int_of_float :: "pyfloat \<Rightarrow> error + int" where
  "int_of_float (Fl x) = Inr (trunc x)"
| "int_of_float NaN = Inl ValueError"
| "int_of_float a = Inl OverflowError"

text \<open>
  \<open>float(n)\<close> on an integer, also the conversion of an integer operand in mixed
  arithmetic: correctly rounded, \<open>OverflowError\<close> when the integer is too large.
\<close>

definition float_of_int :: "int \<Rightarrow> error + pyfloat" where
  "float_of_int n = (case rnd (of_int n) of Fl y \<Rightarrow> Inr (Fl y) | _ \<Rightarrow> Inl OverflowError)"

text \<open>Sequencing of computations that may raise.\<close>

definition bind :: "error + 'a \<Rightarrow> ('a \<Rightarrow> error + 'b) \<Rightarrow> error + 'b" where
  "bind m f = (case m of Inl e \<Rightarrow> Inl e | Inr x \<Rightarrow> f x)"

subsection \<open>Formatting\<close>

function show_nat :: "nat \<Rightarrow> string" where
  "show_nat n =
     (if n < 10 then [''0123456789'' ! n]
      else show_nat (n div 10) @ [''0123456789'' ! (n mod 10)])"
  by pat_completeness auto
termination
  by (relation "measure id") auto

declare show_nat.simps [simp del]

text \<open>\<open>str(n)\<close> of an integer, as an f-string prints it.\<close>

definition show_int :: "int \<Rightarrow> string" where
  "show_int n = (if n < 0 then CHR ''-'' # show_nat (nat (- n)) else show_nat (nat n))"

text \<open>
  \<open>f"{x:.df}"\<close>: the decimal with \<open>d\<close> digits after the point nearest to the exact value
  of the float, ties to even.
\<close>

definition zero_pad :: "nat \<Rightarrow> string \<Rightarrow> string" where
  "zero_pad d s = replicate (d - length s) (CHR ''0'') @ s"

fun format_fixed :: "nat \<Rightarrow> pyfloat \<Rightarrow> string" where
  "format_fixed d (Fl x) =
     (let n = nat (round_half_even (\<bar>x\<bar> * 10 ^ d))
      in (if x < 0 then [CHR ''-''] else []) @ show_nat (n div 10 ^ d) @
         (if d = 0 then [] else CHR ''.'' # zero_pad d (show_nat (n mod 10 ^ d))))"
| "format_fixed d PosInf = ''inf''"
| "format_fixed d NegInf = ''-inf''"
| "format_fixed d NaN = ''nan''"

text \<open>\<open>s.rstrip(c)\<close> for a single character \<open>c\<close>.\<close>

definition rstrip :: "char \<Rightarrow> string \<Rightarrow> string" where
  "rstrip c s = rev (dropWhile (\<lambda>x. x = c) (rev s))"

section \<open>EXIF values\<close>

text \<open>
  The shapes a decoded EXIF entry takes: \<open>None\<close>, booleans, integers, floats, strings,
  the image library's rational numbers, tuples and lists of values, and any other
  object (which \<open>float\<close> and \<open>int\<close> reject with \<open>TypeError\<close>).
\<close>

datatype pyval =
  PNone | PBool bool | PInt int | PFloat pyfloat | PStr string | PRational rat
  | PTuple "pyval list" | PList "pyval list" | PObj

text \<open>
  What Python's built-ins do on strings is not part of the repository; the model takes
  it as a parameter: parsing a string as a float or as an integer (\<open>None\<close> stands for
  the \<open>ValueError\<close> of a string that does not parse), and printing a value that is
  neither a string nor an integer.
\<close>

record builtins =
  str_to_float :: "string \<Rightarrow> pyfloat option"
  str_to_int :: "string \<Rightarrow> int option"
  repr_other :: "pyval \<Rightarrow> string"

text \<open>\<open>float(v)\<close>.\<close>

fun py_float :: "builtins \<Rightarrow> pyval \<Rightarrow> error + pyfloat" where
  "py_float bi (PFloat x) = Inr x"
| "py_float bi (PInt n) = float_of_int n"
| "py_float bi (PBool b) = Inr (Fl (if b then 1 else 0))"
| "py_float bi (PRational q) = (case rnd q of Fl y \<Rightarrow> Inr (Fl y) | _ \<Rightarrow> Inl OverflowError)"
| "py_float bi (PStr s) = (case str_to_float bi s of Some x \<Rightarrow> Inr x | None \<Rightarrow> Inl ValueError)"
| "py_float bi v = Inl TypeError"

text \<open>\<open>int(v)\<close>.\<close>

fun py_int :: "builtins \<Rightarrow> pyval \<Rightarrow> error + int" where
  "py_int bi (PInt n) = Inr n"
| "py_int bi (PBool b) = Inr (if b then 1 else 0)"
| "py_int bi (PFloat x) = int_of_float x"
| "py_int bi (PRational q) = Inr (trunc q)"
| "py_int bi (PStr s) = (case str_to_int bi s of Some n \<Rightarrow> Inr n | None \<Rightarrow> Inl ValueError)"
| "py_int bi v = Inl TypeError"

text \<open>\<open>str(v)\<close>, which is also what an f-string prints for \<open>{v}\<close>.\<close>

fun py_str :: "builtins \<Rightarrow> pyval \<Rightarrow> string" where
  "py_str bi (PStr s) = s"
| "py_str bi (PInt n) = show_int n"
| "py_str bi v = repr_other bi v"

text \<open>The truth value of a Python object, as \<open>or\<close> and \<open>if\<close> test it.\<close>

fun truthy :: "pyval \<Rightarrow> bool" where
  "truthy PNone = False"
| "truthy (PBool b) = b"
| "truthy (PInt n) = (n \<noteq> 0)"
| "truthy (PFloat x) = (x \<noteq> Fl 0)"
| "truthy (PStr s) = (s \<noteq> [])"
| "truthy (PRational q) = (q \<noteq> 0)"
| "truthy (PTuple vs) = (vs \<noteq> [])"
| "truthy (PList vs) = (vs \<noteq> [])"
| "truthy PObj = True"

section \<open>The rational normalizer and the metadata formatters\<close>

text \<open>
  \<open>_rational_to_float\<close>: a direct \<open>float(val)\<close>; failing that, a tuple or list of two
  elements is divided; failing that, \<open>float(val)\<close> once more. Each attempt runs under
  \<open>except Exception\<close>.
\<close>

fun two_elements :: "pyval \<Rightarrow> (pyval \<times> pyval) option" where
  "two_elements (PTuple [num, den]) = Some (num, den)"
| "two_elements (PList [num, den]) = Some (num, den)"
| "two_elements v = None"

definition rational_to_float :: "builtins \<Rightarrow> pyval \<Rightarrow> error + pyfloat option" where
  "rational_to_float bi val =
     (case py_float bi val of
        Inr x \<Rightarrow> Inr (Some x)
      | Inl e \<Rightarrow>
          (case two_elements val of
             Some (num, den) \<Rightarrow>
               (case bind (py_float bi num) (\<lambda>a. bind (py_float bi den) (\<lambda>b. fdiv a b)) of
                  Inr q \<Rightarrow> Inr (Some q)
                | Inl e \<Rightarrow> Inr None)
           | None \<Rightarrow>
               (case py_float bi val of
                  Inr x \<Rightarrow> Inr (Some x)
                | Inl e \<Rightarrow> Inr None)))"

text \<open>
  \<open>_format_exposure_time\<close>. The integer \<open>denom\<close> and the result of \<open>round(t)\<close> are
  converted to float where they meet a float operand.
\<close>

definition format_exposure_time :: "builtins \<Rightarrow> pyval \<Rightarrow> error + string option" where
  "format_exposure_time bi val =
     bind (rational_to_float bi val) (\<lambda>r.
       case r of
         None \<Rightarrow> Inr None
       | Some t \<Rightarrow>
           if fle t (Fl 0) then Inr None
           else if flt t (Fl 1) then
             bind (fdiv (Fl 1) t) (\<lambda>q.
             bind (py_round q) (\<lambda>denom.
             bind (if 0 < denom
                   then bind (float_of_int denom) (\<lambda>fd.
                        bind (fdiv (Fl 1) fd) (\<lambda>recip.
                        Inr (flt (fabs (fsub recip t)) (fmul (lit (2 / 100)) t))))
                   else Inr False) (\<lambda>close.
             if close then Inr (Some (''1/'' @ show_int denom @ ''s''))
             else Inr (Some (format_fixed 3 t @ ''s'')))))
           else
             bind (py_round t) (\<lambda>n.
             bind (float_of_int n) (\<lambda>rt.
             if flt (fabs (fsub t rt)) (lit (5 / 100))
             then bind (py_round t) (\<lambda>m. Inr (Some (show_int m @ ''s'')))
             else Inr (Some (format_fixed 1 t @ ''s'')))))"

text \<open>\<open>_format_fnumber\<close>.\<close>

definition format_fnumber :: "builtins \<Rightarrow> pyval \<Rightarrow> error + string option" where
  "format_fnumber bi val =
     bind (rational_to_float bi val) (\<lambda>r.
       case r of
         None \<Rightarrow> Inr None
       | Some f \<Rightarrow>
           if fle f (Fl 0) then Inr None
           else Inr (Some (rstrip (CHR ''.'') (rstrip (CHR ''0'') (''F'' @ format_fixed 1 f)))))"

text \<open>
  \<open>_format_focal\<close>. The normalized value is bound to \<open>fl\<close>, but the f-string reads \<open>f\<close>,
  a name bound neither in the function nor in the module nor among the built-ins: once
  the guard is passed, evaluating the f-string raises \<open>NameError\<close>, before any
  \<open>rstrip\<close> is reached.
\<close>

definition format_focal :: "builtins \<Rightarrow> pyval \<Rightarrow> error + string option" where
  "format_focal bi val =
     bind (rational_to_float bi val) (\<lambda>r.
       case r of
         None \<Rightarrow> Inr None
       | Some fl \<Rightarrow>
           if fle fl (Fl 0) then Inr None
           else Inl NameError)"

section \<open>EXIF extraction\<close>

text \<open>
  \<open>_get_exif_dict\<close> renames the image library's tag numbers and returns the empty
  dictionary on any failure; the model starts from the dictionary it returns. A key
  that is absent and a key bound to \<open>None\<close> read the same through \<open>dict.get\<close>.
\<close>

type_synonym exif = "string \<rightharpoonup> pyval"

definition exif_get :: "exif \<Rightarrow> string \<Rightarrow> pyval" where
  "exif_get exif k = (case exif k of Some v \<Rightarrow> v | None \<Rightarrow> PNone)"

text \<open>\<open>a or b\<close>.\<close>

definition py_or :: "pyval \<Rightarrow> pyval \<Rightarrow> pyval" where
  "py_or a b = (if truthy a then a else b)"

text \<open>\<open>s.strip()\<close>: the white space of the first 256 code points, removed at both ends.\<close>

definition is_space :: "char \<Rightarrow> bool" where
  "is_space c = ((of_char c :: nat) \<in> {9, 10, 11, 12, 13, 28, 29, 30, 31, 32, 133, 160})"

definition strip :: "string \<Rightarrow> string" where
  "strip s = rev (dropWhile is_space (rev (dropWhile is_space s)))"

text \<open>The ISO entry is formatted inside \<open>extract_camera_params\<close>, under its own \<open>try\<close>.\<close>

definition format_iso :: "builtins \<Rightarrow> pyval \<Rightarrow> string option" where
  "format_iso bi iso_v =
     (case iso_v of
        PTuple (v # vs) \<Rightarrow> Some (''ISO'' @ py_str bi v)
      | PList (v # vs) \<Rightarrow> Some (''ISO'' @ py_str bi v)
      | _ \<Rightarrow> (case py_int bi iso_v of Inr n \<Rightarrow> Some (''ISO'' @ show_int n) | Inl e \<Rightarrow> None))"

text \<open>\<open>if s: out[k] = s\<close> for an optional string \<open>s\<close>.\<close>

definition put_if :: "string \<Rightarrow> string option \<Rightarrow> (string \<rightharpoonup> string) \<Rightarrow> (string \<rightharpoonup> string)" where
  "put_if k s out = (case s of Some v \<Rightarrow> (if v \<noteq> [] then out(k \<mapsto> v) else out) | None \<Rightarrow> out)"

text \<open>
  \<open>extract_camera_params\<close>. The three formatter calls stand outside any \<open>try\<close>: what
  they raise leaves the function.
\<close>

definition extract_camera_params :: "builtins \<Rightarrow> exif \<Rightarrow> error + (string \<rightharpoonup> string)" where
  "extract_camera_params bi exif =
     (let brand = strip (py_str bi (case exif ''Make'' of Some v \<Rightarrow> v | None \<Rightarrow> PStr []));
          model = strip (py_str bi (case exif ''Model'' of Some v \<Rightarrow> v | None \<Rightarrow> PStr []));
          out1 = put_if ''model'' (Some model) (put_if ''brand'' (Some brand) Map.empty);
          lens = py_or (exif_get exif ''LensModel'') (exif_get exif ''LensMake'');
          out2 = (if truthy lens then out1(''lens'' \<mapsto> strip (py_str bi lens)) else out1);
          focal = exif_get exif ''FocalLength'';
          fnumber = py_or (exif_get exif ''FNumber'') (exif_get exif ''ApertureValue'');
          shutter = py_or (exif_get exif ''ExposureTime'') (exif_get exif ''ShutterSpeedValue'');
          iso_v = py_or (exif_get exif ''ISOSpeedRatings'') (exif_get exif ''PhotographicSensitivity'')
      in bind (if focal \<noteq> PNone then format_focal bi focal else Inr None) (\<lambda>focal_s.
         bind (if fnumber \<noteq> PNone then format_fnumber bi fnumber else Inr None) (\<lambda>fnum_s.
         bind (if shutter \<noteq> PNone then format_exposure_time bi shutter else Inr None) (\<lambda>shutter_s.
         Inr (put_if ''iso'' (format_iso bi iso_v)
               (put_if ''shutter'' shutter_s
                 (put_if ''fnumber'' fnum_s
                   (put_if ''focal'' focal_s out2))))))))"

section \<open>The template catalog\<close>

text \<open>A template is a dictionary from option names to integers, floats, booleans and colour tuples.\<close>

datatype tval = TInt int | TFloat pyfloat | TBool bool | TTuple "int list"

type_synonym template = "string \<rightharpoonup> tval"

definition Nikon_like :: template where
  "Nikon_like = map_of
     [(''border_px'', TInt 20),
      (''bottom_band_ratio'', TFloat (lit (18 / 100))),
      (''bg_color'', TTuple [255, 255, 255]),
      (''border_color'', TTuple [0, 0, 0]),
      (''text_color'', TTuple [0, 0, 0]),
      (''brand_font_size_ratio'', TFloat (lit (6 / 100))),
      (''meta_font_size_ratio'', TFloat (lit (26 / 1000))),
      (''logo_max_height_ratio'', TFloat (lit (8 / 100))),
      (''gap_ratio'', TFloat (lit (15 / 1000))),
      (''use_logo'', TBool True),
      (''show_brand_text'', TBool True),
      (''show_meta_text'', TBool True)]"

definition minimal_black :: template where
  "minimal_black = map_of
     [(''border_px'', TInt 0),
      (''bottom_band_ratio'', TFloat (lit (14 / 100))),
      (''bg_color'', TTuple [0, 0, 0]),
      (''border_color'', TTuple [255, 255, 255]),
      (''text_color'', TTuple [255, 255, 255]),
      (''brand_font_size_ratio'', TFloat (lit (55 / 1000))),
      (''logo_max_height_ratio'', TFloat (lit (8 / 100))),
      (''gap_ratio'', TFloat (lit (12 / 1000))),
      (''use_logo'', TBool True),
      (''show_brand_text'', TBool False)]"

definition DeFAULT_TEMPLATE :: "string \<rightharpoonup> template" where
  "DeFAULT_TEMPLATE = map_of [(''Nikon_like'', Nikon_like), (''minimal_black'', minimal_black)]"

text \<open>\<open>DeFAULT_TEMPLATE.get(template_name, DeFAULT_TEMPLATE["Nikon_like"])\<close>.\<close>

definition template_of :: "string \<Rightarrow> template" where
  "template_of template_name =
     (case DeFAULT_TEMPLATE template_name of Some t \<Rightarrow> t | None \<Rightarrow> Nikon_like)"

text \<open>\<open>tpl[k]\<close> raises \<open>KeyError\<close> for a missing key.\<close>

definition tpl_get :: "template \<Rightarrow> string \<Rightarrow> error + tval" where
  "tpl_get tpl k = (case tpl k of Some v \<Rightarrow> Inr v | None \<Rightarrow> Inl KeyError)"

text \<open>\<open>int(v)\<close>, \<open>v * n\<close> for an integer \<open>n\<close>, and the truth value of a template entry.\<close>

fun t_int :: "tval \<Rightarrow> error + int" where
  "t_int (TInt n) = Inr n"
| "t_int (TFloat x) = int_of_float x"
| "t_int (TBool b) = Inr (if b then 1 else 0)"
| "t_int (TTuple xs) = Inl TypeError"

fun t_times :: "tval \<Rightarrow> int \<Rightarrow> error + tval" where
  "t_times (TInt a) n = Inr (TInt (a * n))"
| "t_times (TFloat x) n = bind (float_of_int n) (\<lambda>fw. Inr (TFloat (fmul x fw)))"
| "t_times (TBool b) n = Inr (TInt ((if b then 1 else 0) * n))"
| "t_times (TTuple xs) n = Inr (TTuple (concat (replicate (nat n) xs)))"

fun t_truthy :: "tval \<Rightarrow> bool" where
  "t_truthy (TInt n) = (n \<noteq> 0)"
| "t_truthy (TFloat x) = (x \<noteq> Fl 0)"
| "t_truthy (TBool b) = b"
| "t_truthy (TTuple xs) = (xs \<noteq> [])"

text \<open>\<open>int(tpl[k] * n)\<close>, the shape of every geometry computation of the composer.\<close>

definition ratio_px :: "template \<Rightarrow> string \<Rightarrow> int \<Rightarrow> error + int" where
  "ratio_px tpl k n = bind (tpl_get tpl k) (\<lambda>r. bind (t_times r n) t_int)"

section \<open>Drawing tools\<close>

text \<open>
  The file system and the image library are collaborators of the repository; the model
  reads them from an environment: which image a path decodes to, which paths exist,
  which font files load at a size, the size a text is measured at, the size of a logo a
  path decodes to, whether the library resizes an image to a given size, the working
  directory, and whether creating a directory and writing a file succeed. Drawing on
  the canvas is taken to succeed.
\<close>

datatype font = TrueType string int | DefaultFont

record source_image =
  img_size :: "int \<times> int"
  img_exif :: exif

record env =
  open_image :: "string \<Rightarrow> source_image option"
  path_exists :: "string \<Rightarrow> bool"
  truetype :: "string \<Rightarrow> int \<Rightarrow> bool"
  text_size :: "string \<Rightarrow> font \<Rightarrow> int \<times> int"
  open_logo :: "string \<Rightarrow> (int \<times> int) option"
  resize_ok :: "int \<Rightarrow> int \<Rightarrow> bool"
  getcwd :: string
  makedirs :: "string \<Rightarrow> bool"
  save_file :: "string \<Rightarrow> bool"
  py :: builtins

text \<open>What is drawn on the canvas, in order.\<close>

datatype draw_op =
  Rectangle int int int int
  | PasteSource int int
  | PasteLogo int int int int
  | DrawText string font int int

text \<open>
  \<open>load_font\<close>. The handler of a failed load prints \<open>path\<close>, a name that is bound
  nowhere (the loop variable is \<open>p\<close>): the handler itself raises \<open>NameError\<close>, which
  leaves the function.
\<close>

fun load_font :: "env \<Rightarrow> string list \<Rightarrow> int \<Rightarrow> error + font" where
  "load_font env [] sz = Inr DefaultFont"
| "load_font env (p # ps) sz =
     (if p \<noteq> [] \<and> path_exists env p
      then (if truetype env p sz then Inr (TrueType p sz) else Inl NameError)
      else load_font env ps sz)"

text \<open>\<open>draw_centered_text\<close> returns the bottom of the text; the model also returns what it drew.\<close>

definition draw_centered_text :: "env \<Rightarrow> string \<Rightarrow> font \<Rightarrow> int \<Rightarrow> int \<Rightarrow> int \<times> draw_op list" where
  "draw_centered_text env txt font canvas_w y =
     (let (text_w, text_h) = text_size env txt font;
          x = (canvas_w - text_w) div 2
      in (y + text_h, [DrawText txt font x y]))"

text \<open>
  \<open>paste_logo_center\<close> returns the new cursor and the logo height. A logo that does not
  decode gives \<open>(y, 0)\<close>. A logo taller than \<open>max_height\<close> is resized, which the
  library may refuse with \<open>ValueError\<close>, and then \<open>w, h = logo\<close> unpacks the image
  object itself, which is not iterable: \<open>TypeError\<close>.
\<close>

definition paste_logo_center :: "env \<Rightarrow> int \<Rightarrow> string \<Rightarrow> int \<Rightarrow> int \<Rightarrow> error + ((int \<times> int) \<times> draw_op list)" where
  "paste_logo_center env canvas_w logo_path max_height y =
     (case open_logo env logo_path of
        None \<Rightarrow> Inr ((y, 0), [])
      | Some (w, h) \<Rightarrow>
          if max_height < h then
            bind (float_of_int h) (\<lambda>fh.
            bind (float_of_int max_height) (\<lambda>fm.
            bind (fdiv fm fh) (\<lambda>scale.
            bind (float_of_int w) (\<lambda>fw.
            bind (int_of_float (fmul fw scale)) (\<lambda>new_w.
            bind (int_of_float (fmul fh scale)) (\<lambda>new_h.
            if resize_ok env new_w new_h then Inl TypeError else Inl ValueError))))))
          else
            (let x = (canvas_w - w) div 2
             in Inr ((y + h, h), [PasteLogo x y w h])))"

section \<open>Frame composition\<close>

text \<open>The metadata line: the non-empty fields in a fixed order, or the sentinel.\<close>

fun str_join :: "string \<Rightarrow> string list \<Rightarrow> string" where
  "str_join sep [] = []"
| "str_join sep [x] = x"
| "str_join sep (x # y # ys) = x @ sep @ str_join sep (y # ys)"

definition dict_truthy :: "(string \<rightharpoonup> string) \<Rightarrow> string \<Rightarrow> bool" where
  "dict_truthy params k = (case params k of Some s \<Rightarrow> s \<noteq> [] | None \<Rightarrow> False)"

definition meta_pieces :: "(string \<rightharpoonup> string) \<Rightarrow> string list" where
  "meta_pieces params =
     map (\<lambda>k. the (params k)) (filter (dict_truthy params) [''focal'', ''fnumber'', ''shutter'', ''iso''])"

definition meta_line :: "(string \<rightharpoonup> string) \<Rightarrow> string" where
  "meta_line params =
     (let pieces = meta_pieces params
      in if pieces \<noteq> [] then str_join ''  '' pieces else ''No EXIF Data'')"

text \<open>The canvas size: both products are cut to integers by \<open>int\<close>.\<close>

definition canvas_dims :: "template \<Rightarrow> int \<Rightarrow> int \<Rightarrow> error + (int \<times> int \<times> int)" where
  "canvas_dims tpl w h =
     bind (bind (tpl_get tpl ''border_px'') t_int) (\<lambda>border_px.
     bind (ratio_px tpl ''bottom_band_ratio'' w) (\<lambda>bang_h.
     Inr (border_px, w + 2 * border_px, h + bang_h + border_px * 2)))"

text \<open>
  The canvas size in the words of the claim about it, for comparison: the band height is
  \<open>round(r * W)\<close>.
\<close>

definition claimed_canvas_size :: "int \<Rightarrow> pyfloat \<Rightarrow> int \<Rightarrow> int \<Rightarrow> error + (int \<times> int)" where
  "claimed_canvas_size B r W H =
     bind (float_of_int W) (\<lambda>fw.
     bind (py_round (fmul r fw)) (\<lambda>band.
     Inr (W + 2 * B, H + band + 2 * B)))"

text \<open>Paths, as \<open>os.path\<close> treats them on a POSIX system.\<close>

definition os_dirname :: "string \<Rightarrow> string" where
  "os_dirname p =
     (let head = rev (dropWhile (\<lambda>c. c \<noteq> CHR ''/'') (rev p))
      in if head \<noteq> [] \<and> head \<noteq> replicate (length head) (CHR ''/'')
         then rstrip (CHR ''/'') head else head)"

definition os_join :: "string \<Rightarrow> string \<Rightarrow> string" where
  "os_join a b =
     (if take 1 b = ''/'' then b
      else if a = [] \<or> last a = CHR ''/'' then a @ b
      else a @ ''/'' @ b)"

text \<open>\<open>s.lower()\<close> on the first 256 code points, and \<open>s.endswith(t)\<close>.\<close>

definition lower_char :: "char \<Rightarrow> char" where
  "lower_char c =
     (let n = (of_char c :: nat)
      in if (65 \<le> n \<and> n \<le> 90) \<or> (192 \<le> n \<and> n \<le> 222 \<and> n \<noteq> 215) then char_of (n + 32) else c)"

definition lower :: "string \<Rightarrow> string" where
  "lower s = map lower_char s"

definition endswith :: "string \<Rightarrow> string \<Rightarrow> bool" where
  "endswith s t = (take (length t) (rev s) = rev t)"

text \<open>The path the result is written to.\<close>

definition output_path :: "string \<Rightarrow> string \<Rightarrow> string" where
  "output_path cwd out_path =
     (let p1 = (if os_dirname out_path = [] then os_join cwd out_path else out_path)
      in if \<not> endswith (lower p1) ''.jpg'' then p1 @ ''.jpg'' else p1)"

record framed_image =
  saved_to :: string
  canvas_size :: "int \<times> int"
  drawn :: "draw_op list"

definition default_fonts :: "string list" where
  "default_fonts =
     [''arial.ttf'', ''SimHei.ttf'', ''SourceHanSansCN-Regular.otf'',
      ''/usr/share/fonts/truetype/dejavu/DejaVuSans.ttf'', ''/Library/Fonts/Arial.ttf'']"

text \<open>
  The part of \<open>make_framed_image\<close> that lays out the band: font sizes, gap and logo
  height from the canvas width, the fonts, then logo, brand text and metadata text from
  the starting cursor down.
\<close>

definition layout :: "env \<Rightarrow> template \<Rightarrow> string option \<Rightarrow> string list \<Rightarrow> string \<Rightarrow> string
    \<Rightarrow> int \<Rightarrow> int \<Rightarrow> int \<Rightarrow> int \<Rightarrow> error + draw_op list" where
  "layout env tpl logo_path preferred_fonts brand_text meta border_px canvas_w canvas_h h =
     (let band_top = border_px + h;
          band_bottom = canvas_h - border_px;
          band_height = band_bottom - band_top
      in bind (ratio_px tpl ''brand_font_size_ratio'' canvas_w) (\<lambda>b.
         bind (ratio_px tpl ''meta_font_size_ratio'' canvas_w) (\<lambda>m.
         bind (ratio_px tpl ''gap_ratio'' canvas_w) (\<lambda>gap.
         bind (ratio_px tpl ''logo_max_height_ratio'' canvas_w) (\<lambda>logo_max_h.
         let brand_font_size = max 12 b; meta_font_size = max 10 m
         in bind (load_font env preferred_fonts brand_font_size) (\<lambda>brand_font.
            bind (load_font env preferred_fonts meta_font_size) (\<lambda>meta_font.
            let cur_y0 = band_top +
                  max 4 ((band_height - (logo_max_h + brand_font_size + meta_font_size + gap)) div 2)
            in bind (tpl_get tpl ''use_logo'') (\<lambda>use_logo.
               bind (case logo_path of
                       Some lp \<Rightarrow>
                         if t_truthy use_logo \<and> lp \<noteq> [] \<and> path_exists env lp
                         then bind (paste_logo_center env canvas_w lp logo_max_h cur_y0)
                                (\<lambda>((y1, logo_h), ops). Inr (y1 + gap div 2, ops))
                         else Inr (cur_y0, [])
                     | None \<Rightarrow> Inr (cur_y0, [])) (\<lambda>(cur_y1, logo_ops).
               bind (if t_truthy (case tpl ''show_brand_text'' of Some v \<Rightarrow> v | None \<Rightarrow> TBool True)
                        \<and> brand_text \<noteq> []
                     then bind (tpl_get tpl ''text_color'') (\<lambda>color.
                          let (y2, ops) = draw_centered_text env brand_text brand_font canvas_w cur_y1
                          in Inr (y2 + gap, ops))
                     else Inr (cur_y1, [])) (\<lambda>(cur_y2, brand_ops).
               bind (if meta \<noteq> []
                     then bind (tpl_get tpl ''text_color'') (\<lambda>color.
                          Inr (snd (draw_centered_text env meta meta_font canvas_w cur_y2)))
                     else Inr []) (\<lambda>meta_ops.
               Inr (logo_ops @ brand_ops @ meta_ops))))))))))))"

text \<open>
  \<open>make_framed_image\<close>: \<open>Inr None\<close> is the early return for a source that does not
  open (nothing is written); \<open>Inr (Some out)\<close> is a written file; \<open>Inl e\<close> is an
  exception that leaves the function.
\<close>

definition make_framed_image :: "env \<Rightarrow> string \<Rightarrow> string \<Rightarrow> string option \<Rightarrow> string
    \<Rightarrow> string list option \<Rightarrow> error + framed_image option" where
  "make_framed_image env img_path out_path logo_path template_name preferred_fonts =
     (let fonts = (case preferred_fonts of None \<Rightarrow> default_fonts | Some fs \<Rightarrow> fs);
          tpl = template_of template_name
      in case open_image env img_path of
           None \<Rightarrow> Inr None
         | Some src \<Rightarrow>
             (let (w, h) = img_size src
              in bind (extract_camera_params (py env) (img_exif src)) (\<lambda>params.
                 let meta = meta_line params;
                     brand_text = (if dict_truthy params ''brand'' then the (params ''brand'') else ''Canon'')
                 in bind (canvas_dims tpl w h) (\<lambda>(border_px, canvas_w, canvas_h).
                    bind (tpl_get tpl ''bg_color'') (\<lambda>bg.
                    bind (case bg of TTuple c \<Rightarrow> Inr (c @ [255]) | _ \<Rightarrow> Inl TypeError) (\<lambda>fill.
                    bind (if 0 < border_px
                          then bind (tpl_get tpl ''border_color'') (\<lambda>outline.
                               Inr [Rectangle 0 0 (canvas_w - 1) (canvas_h - 1)])
                          else Inr []) (\<lambda>border_ops.
                    bind (layout env tpl logo_path fonts brand_text meta border_px canvas_w canvas_h h)
                      (\<lambda>band_ops.
                    let final_path = output_path (getcwd env) out_path;
                        out_dir = os_dirname final_path
                    in if out_dir \<noteq> [] \<and> \<not> makedirs env out_dir then Inl OSError
                       else if \<not> save_file env final_path then Inl OSError
                       else Inr (Some \<lparr>saved_to = final_path,
                                        canvas_size = (canvas_w, canvas_h),
                                        drawn = border_ops @ [PasteSource border_px border_px] @ band_ops\<rparr>)))))))))"

section \<open>Concrete inputs\<close>

text \<open>
  Inputs for the closed examples below. \<open>plain_builtins\<close> stands in for the built-ins
  where no string is parsed and nothing but strings and integers is printed: it
  rejects every string and prints \<open>?\<close>.
\<close>

definition plain_builtins :: builtins where
  "plain_builtins =
     \<lparr>str_to_float = (\<lambda>s. None), str_to_int = (\<lambda>s. None), repr_other = (\<lambda>v. ''?'')\<rparr>"

text \<open>
  An environment with three photographs of 1000 by 600 pixels (one without EXIF data,
  one with the usual tags but no focal length, one with a focal length), a font file
  that exists but does not load, a small logo and a tall one. An image is resized to
  every size with positive sides.
\<close>

definition example_env :: env where
  "example_env =
     \<lparr>open_image = map_of
        [(''plain.jpg'', \<lparr>img_size = (1000, 600), img_exif = Map.empty\<rparr>),
         (''nikon.jpg'', \<lparr>img_size = (1000, 600), img_exif = map_of
            [(''Make'', PStr ''Nikon''), (''Model'', PStr ''Z6''), (''FNumber'', PRational (9 / 5)),
             (''ExposureTime'', PRational (1 / 100)), (''ISOSpeedRatings'', PInt 100)]\<rparr>),
         (''focal.jpg'', \<lparr>img_size = (1000, 600), img_exif = map_of
            [(''FocalLength'', PRational 50)]\<rparr>)],
      path_exists = (\<lambda>p. p \<in> set [''bad.ttf'', ''logo.png'', ''tall.png'']),
      truetype = (\<lambda>p sz. False),
      text_size = (\<lambda>s f. (10 * int (length s), 20)),
      open_logo = map_of [(''logo.png'', (40, 30)), (''tall.png'', (200, 100))],
      resize_ok = (\<lambda>w h. 0 < w \<and> 0 < h),
      getcwd = ''/home/user'',
      makedirs = (\<lambda>p. True),
      save_file = (\<lambda>p. True),
      py = plain_builtins\<rparr>"

section \<open>Properties of the rounding\<close>

lemma bit_length_nonneg: "0 \<le> bit_length n"
  by (induction n rule: bit_length.induct) (subst bit_length.simps, auto)

lemma bit_length_pos: "0 < n \<Longrightarrow> 0 < bit_length n"
  using bit_length_nonneg [of "n div 2"] by (subst bit_length.simps) simp

lemma bit_length_bounds_int:
  "0 < n \<Longrightarrow> 2 ^ (nat (bit_length n) - 1) \<le> n \<and> n < 2 ^ nat (bit_length n)"
proof (induction n rule: bit_length.induct)
  case (1 n)
  show ?case
  proof (cases "n = 1")
    case True
    have "bit_length 1 = 1"
      by (subst bit_length.simps, subst bit_length.simps) simp
    with True show ?thesis by simp
  next
    case False
    with "1.prems" have h: "0 < n div 2" by simp
    define b where "b = nat (bit_length (n div 2))"
    have bl: "bit_length n = 1 + bit_length (n div 2)"
      using "1.prems" by (subst bit_length.simps) simp
    have nn: "0 \<le> bit_length (n div 2)" by (rule bit_length_nonneg)
    have bpos: "0 < b"
      using bit_length_pos [OF h] by (simp add: b_def)
    have ih: "2 ^ (b - 1) \<le> n div 2 \<and> n div 2 < 2 ^ b"
      using "1.IH" "1.prems" h by (simp add: b_def)
    have nb: "nat (bit_length n) = Suc b"
      using nn by (simp add: bl b_def nat_add_distrib)
    have "2 ^ b = (2::int) * 2 ^ (b - 1)"
      using bpos by (cases b) simp_all
    with ih have lo: "2 ^ b \<le> n" by linarith
    from ih have "n div 2 + 1 \<le> 2 ^ b" by simp
    then have hi: "n < 2 * 2 ^ b" by linarith
    show ?thesis using lo hi by (simp add: nb)
  qed
qed

lemma bit_length_bounds_rat:
  assumes "0 < n"
  shows "(2::rat) powi (bit_length n - 1) \<le> of_int n" and "of_int n < (2::rat) powi bit_length n"
proof -
  define k where "k = nat (bit_length n)"
  have kpos: "0 < k" using bit_length_pos [OF assms] by (simp add: k_def)
  have b: "bit_length n = int k" using bit_length_nonneg [of n] by (simp add: k_def)
  have i: "2 ^ (k - 1) \<le> n \<and> n < 2 ^ k"
    using bit_length_bounds_int [OF assms] by (simp add: k_def)
  have e1: "bit_length n - 1 = int (k - 1)" using kpos b by simp
  have "(of_int (2 ^ (k - 1)) :: rat) \<le> of_int n" using i by (simp only: of_int_le_iff)
  then show "(2::rat) powi (bit_length n - 1) \<le> of_int n"
    by (simp add: e1)
  have "(of_int n :: rat) < of_int (2 ^ k)" using i by (simp only: of_int_less_iff)
  then show "of_int n < (2::rat) powi bit_length n"
    by (simp add: b)
qed

lemma ilog2_bounds:
  assumes "0 < x"
  shows "2 powi ilog2 x \<le> x" and "x < 2 powi (ilog2 x + 1)"
proof -
  obtain p q where pq: "quotient_of x = (p, q)" by (cases "quotient_of x")
  have qpos: "0 < q" using quotient_of_denom_pos [OF pq] .
  have x: "x = of_int p / of_int q" using quotient_of_div [OF pq] .
  have ppos: "0 < p"
    using assms qpos by (simp add: x zero_less_divide_iff)
  define bp where "bp = bit_length p"
  define bq where "bq = bit_length q"
  note P = bit_length_bounds_rat [OF ppos, folded bp_def]
  note Q = bit_length_bounds_rat [OF qpos, folded bq_def]
  have qr: "(0::rat) < of_int q" using qpos by simp
  have two: "(2::rat) \<noteq> 0" by simp
  have up: "x < 2 powi (bp - bq + 1)"
  proof -
    have "of_int p * (2::rat) powi (bq - 1) < 2 powi bp * of_int q"
      using P Q ppos by (intro mult_less_le_imp_less) auto
    then have "x < 2 powi bp / 2 powi (bq - 1)"
      using qr by (simp add: x field_simps)
    also have "\<dots> = 2 powi (bp - (bq - 1))"
      by (simp add: power_int_diff)
    finally show ?thesis by (simp add: algebra_simps)
  qed
  have lo: "2 powi (bp - bq - 1) \<le> x"
  proof -
    have "(2::rat) powi (bp - 1) * of_int q \<le> of_int p * 2 powi bq"
      using P Q qr ppos by (intro mult_mono) auto
    then have "2 powi (bp - 1) / 2 powi bq \<le> x"
      using qr by (simp add: x field_simps)
    moreover have "(2::rat) powi (bp - 1) / 2 powi bq = 2 powi (bp - 1 - bq)"
      by (simp add: power_int_diff)
    ultimately show ?thesis by (simp add: algebra_simps)
  qed
  have il: "ilog2 x = (if 2 powi (bp - bq) \<le> x then bp - bq else bp - bq - 1)"
    by (simp add: ilog2_def pq bp_def bq_def Let_def)
  show "2 powi ilog2 x \<le> x"
    using lo by (simp add: il)
  show "x < 2 powi (ilog2 x + 1)"
    using up by (auto simp add: il not_le)
qed

lemma ilog2_unique:
  assumes "0 < x" "2 powi e \<le> x" "x < 2 powi (e + 1)"
  shows "ilog2 x = e"
proof -
  note B = ilog2_bounds [OF assms(1)]
  have "(2::rat) powi e < 2 powi (ilog2 x + 1)" using assms(2) B(2) by simp
  then have "e < ilog2 x + 1"
    by (metis power_int_increasing not_less one_le_numeral)
  moreover have "(2::rat) powi ilog2 x < 2 powi (e + 1)" using assms(3) B(1) by simp
  then have "ilog2 x < e + 1"
    by (metis power_int_increasing not_less one_le_numeral)
  ultimately show ?thesis by simp
qed

lemma rhe_of_int: "round_half_even (of_int n) = n"
  by (simp add: round_half_even_def)

lemma rhe_floor_le: "\<lfloor>x\<rfloor> \<le> round_half_even x"
  by (simp add: round_half_even_def Let_def)

lemma rhe_le_floor: "round_half_even x \<le> \<lfloor>x\<rfloor> + 1"
  by (simp add: round_half_even_def Let_def)

lemma rhe_ge: "of_int n \<le> x \<Longrightarrow> n \<le> round_half_even x"
  using rhe_floor_le [of x] by (simp add: le_floor_iff order_trans [of n "\<lfloor>x\<rfloor>"])

lemma rhe_le:
  assumes "x \<le> of_int n"
  shows "round_half_even x \<le> n"
proof (cases "x = of_int n")
  case True
  then show ?thesis by (simp add: rhe_of_int)
next
  case False
  with assms have "x < of_int n" by simp
  then have "\<lfloor>x\<rfloor> < n" by (simp add: floor_less_iff)
  with rhe_le_floor [of x] show ?thesis by linarith
qed

lemma rhe_bounds: "x - 1 / 2 \<le> of_int (round_half_even x)" "of_int (round_half_even x) \<le> x + 1 / 2"
proof -
  define k where "k = \<lfloor>x\<rfloor>"
  have f: "of_int k \<le> x" "x < of_int k + 1" unfolding k_def by linarith+
  have r: "round_half_even x =
      (if x - of_int k < 1 / 2 then k else if 1 / 2 < x - of_int k then k + 1
       else if even k then k else k + 1)"
    by (simp add: round_half_even_def Let_def k_def)
  show "x - 1 / 2 \<le> of_int (round_half_even x)"
    using f unfolding r by auto
  show "of_int (round_half_even x) \<le> x + 1 / 2"
    using f unfolding r by auto
qed

lemma pow2_split53: "(2::rat) powi (e + 1) = 2 ^ 53 * 2 powi (e - 52)"
proof -
  have "(2::rat) powi (53 + (e - 52)) = 2 powi 53 * 2 powi (e - 52)"
    by (rule power_int_add) simp
  moreover have "53 + (e - 52) = e + 1" by simp
  ultimately show ?thesis by simp
qed

lemma pow2_split52: "(2::rat) powi e = 2 ^ 52 * 2 powi (e - 52)"
proof -
  have "(2::rat) powi (52 + (e - 52)) = 2 powi 52 * 2 powi (e - 52)"
    by (rule power_int_add) simp
  moreover have "52 + (e - 52) = e" by simp
  ultimately show ?thesis by simp
qed

lemma ulp_pos: "0 < ulp a"
  by (simp add: ulp_def)

lemma mantissa_le:
  assumes "0 < a"
  shows "round_half_even (a / ulp a) \<le> 2 ^ 53"
proof -
  define e where "e = max (ilog2 a) (- 1022)"
  have u: "ulp a = 2 powi (e - 52)" by (simp add: ulp_def e_def)
  have "a < 2 powi (ilog2 a + 1)" using ilog2_bounds(2) [OF assms] .
  also have "\<dots> \<le> 2 powi (e + 1)"
    by (rule power_int_increasing) (simp_all add: e_def)
  finally have "a < 2 powi (e + 1)" .
  moreover note pow2_split53 [of e]
  ultimately have "a / ulp a < 2 ^ 53"
    using ulp_pos [of a] by (simp add: u pos_divide_less_eq)
  then have "a / ulp a \<le> of_int (2 ^ 53)" by simp
  then show ?thesis by (rule rhe_le)
qed

lemma rd_le_pow:
  assumes "0 < a"
  shows "rd a \<le> 2 powi (max (ilog2 a) (- 1022) + 1)"
proof -
  define e where "e = max (ilog2 a) (- 1022)"
  have u: "ulp a = 2 powi (e - 52)" by (simp add: ulp_def e_def)
  have "(of_int (round_half_even (a / ulp a)) :: rat) \<le> of_int (2 ^ 53)"
    using mantissa_le [OF assms] by (simp only: of_int_le_iff)
  then have "rd a \<le> 2 ^ 53 * ulp a"
    using ulp_pos [of a] by (simp add: rd_def)
  also have "\<dots> = 2 powi (e + 1)"
    by (simp only: u pow2_split53 [of e])
  finally show ?thesis by (simp add: e_def)
qed

lemma rd_ge_pow:
  assumes "0 < a" "- 1022 \<le> ilog2 a"
  shows "2 powi ilog2 a \<le> rd a"
proof -
  define e where "e = ilog2 a"
  have u: "ulp a = 2 powi (e - 52)" using assms(2) by (simp add: ulp_def e_def max_def)
  note p = pow2_split52 [of e]
  have "2 powi e \<le> a" using ilog2_bounds(1) [OF assms(1)] by (simp add: e_def)
  then have "of_int (2 ^ 52) \<le> a / ulp a"
    using ulp_pos [of a] by (simp add: u p pos_le_divide_eq)
  then have "2 ^ 52 \<le> round_half_even (a / ulp a)" by (rule rhe_ge)
  then have "(of_int (2 ^ 52) :: rat) \<le> of_int (round_half_even (a / ulp a))"
    by (simp only: of_int_le_iff)
  then have "2 ^ 52 * ulp a \<le> rd a"
    using ulp_pos [of a] by (simp add: rd_def)
  then show ?thesis by (simp only: p u e_def [symmetric])
qed

lemma rd_nonneg: "0 < a \<Longrightarrow> 0 \<le> rd a"
proof -
  assume a: "0 < a"
  have "0 \<le> a / ulp a" using a ulp_pos [of a] by simp
  then have "of_int 0 \<le> a / ulp a" by simp
  then have "0 \<le> round_half_even (a / ulp a)" by (rule rhe_ge)
  then show ?thesis using ulp_pos [of a] by (simp add: rd_def)
qed

lemma rd_ge_one:
  assumes "1 \<le> a"
  shows "1 \<le> rd a"
proof -
  have a: "0 < a" using assms by simp
  have "(2::rat) powi 0 < 2 powi (ilog2 a + 1)"
    using ilog2_bounds(2) [OF a] assms by simp
  then have "0 < ilog2 a + 1"
    by (metis power_int_increasing not_less one_le_numeral)
  then have e: "0 \<le> ilog2 a" by simp
  then have "(2::rat) powi 0 \<le> 2 powi ilog2 a"
    by (intro power_int_increasing) simp_all
  moreover have "2 powi ilog2 a \<le> rd a"
    using e by (intro rd_ge_pow a) simp
  ultimately show ?thesis by simp
qed

lemma ilog2_ge:
  assumes "0 < a" "2 powi k \<le> a"
  shows "k \<le> ilog2 a"
proof -
  have "(2::rat) powi k < 2 powi (ilog2 a + 1)"
    using ilog2_bounds(2) [OF assms(1)] assms(2) by simp
  then have "k < ilog2 a + 1"
    by (metis power_int_increasing not_less one_le_numeral)
  then show ?thesis by simp
qed

lemma ilog2_less:
  assumes "0 < a" "a < 2 powi k"
  shows "ilog2 a < k"
proof -
  have "(2::rat) powi ilog2 a < 2 powi k"
    using ilog2_bounds(1) [OF assms(1)] assms(2) by simp
  then show ?thesis
    by (metis power_int_increasing not_less one_le_numeral)
qed

lemma rd_top_binade:
  assumes "0 < a" "max (ilog2 a) (- 1022) = 1023" "round_half_even (a / ulp a) < 2 ^ 53"
  shows "rd a \<le> float_max"
proof -
  have u: "ulp a = 2 ^ 971" by (simp add: ulp_def assms(2))
  have "round_half_even (a / ulp a) \<le> 2 ^ 53 - 1" using assms(3) by simp
  then have "(of_int (round_half_even (a / ulp a)) :: rat) \<le> of_int (2 ^ 53 - 1)"
    by (simp only: of_int_le_iff)
  then have "rd a \<le> of_int (2 ^ 53 - 1) * 2 ^ 971"
    unfolding rd_def u by (rule mult_right_mono) simp
  also have "\<dots> = float_max" by (simp add: float_max_def)
  finally show ?thesis .
qed

lemma rd_low_binades:
  assumes "0 < a" "max (ilog2 a) (- 1022) \<le> 1022"
  shows "rd a \<le> float_max"
proof -
  have "rd a \<le> 2 powi (max (ilog2 a) (- 1022) + 1)" by (rule rd_le_pow [OF assms(1)])
  also have "\<dots> \<le> 2 powi 1023"
    using assms(2) by (intro power_int_increasing) simp_all
  also have "\<dots> \<le> float_max" by (simp add: float_max_def)
  finally show ?thesis .
qed

lemma rd_finite_le_max:
  assumes "0 < a" "rd a < 2 ^ 1024"
  shows "rd a \<le> float_max"
proof -
  define e where "e = max (ilog2 a) (- 1022)"
  consider "1024 \<le> e" | "e = 1023" | "e \<le> 1022" by linarith
  then show ?thesis
  proof cases
    case 1
    then have i: "1024 \<le> ilog2 a" by (simp add: e_def max_def split: if_splits)
    then have "(2::rat) powi 1024 \<le> 2 powi ilog2 a"
      by (intro power_int_increasing) simp_all
    also have "\<dots> \<le> rd a" using i by (intro rd_ge_pow assms(1)) simp
    finally show ?thesis using assms(2) by simp
  next
    case 2
    have u: "ulp a = 2 ^ 971" using 2 by (simp add: ulp_def e_def)
    have "of_int (round_half_even (a / ulp a)) * (2::rat) ^ 971 < 2 ^ 53 * 2 ^ 971"
      using assms(2) by (simp add: rd_def u)
    then have "(of_int (round_half_even (a / ulp a)) :: rat) < of_int (2 ^ 53)"
      by (simp only: mult_less_cancel_right_pos zero_less_power zero_less_numeral of_int_power of_int_numeral)
    then have "round_half_even (a / ulp a) < 2 ^ 53"
      by (simp only: of_int_less_iff)
    with 2 show ?thesis by (intro rd_top_binade assms(1)) (simp_all add: e_def)
  next
    case 3
    then show ?thesis by (intro rd_low_binades assms(1)) (simp add: e_def)
  qed
qed

lemma rd_le_max:
  assumes "0 < a" "a \<le> float_max"
  shows "rd a \<le> float_max"
proof -
  define e where "e = max (ilog2 a) (- 1022)"
  have "a < 2 powi 1024" using assms(2) by (simp add: float_max_def)
  then have "ilog2 a < 1024" by (rule ilog2_less [OF assms(1)])
  then have "e \<le> 1023" by (simp add: e_def)
  then consider "e = 1023" | "e \<le> 1022" by linarith
  then show ?thesis
  proof cases
    case 1
    have u: "ulp a = 2 ^ 971" using 1 by (simp add: ulp_def e_def)
    have "a / ulp a \<le> float_max / 2 ^ 971"
      using assms(2) by (simp add: u divide_right_mono)
    also have "\<dots> = of_int (2 ^ 53 - 1)" by (simp add: float_max_def)
    finally have "round_half_even (a / ulp a) \<le> 2 ^ 53 - 1" by (rule rhe_le)
    then have "round_half_even (a / ulp a) < 2 ^ 53" by simp
    with 1 show ?thesis by (intro rd_top_binade assms(1)) (simp_all add: e_def)
  next
    case 2
    then show ?thesis by (intro rd_low_binades assms(1)) (simp add: e_def)
  qed
qed

lemma float_max_less: "float_max < 2 ^ 1024"
  by (simp add: float_max_def)

lemma rnd_Fl_bound:
  assumes "rnd x = Fl y"
  shows "\<bar>y\<bar> \<le> float_max"
proof (cases "x = 0")
  case True
  with assms show ?thesis by (simp add: rnd_def float_max_def)
next
  case False
  then have a: "0 < \<bar>x\<bar>" by simp
  from assms False have lt: "rd \<bar>x\<bar> < 2 ^ 1024" and y: "\<bar>y\<bar> = \<bar>rd \<bar>x\<bar>\<bar>"
    by (auto simp add: rnd_def split: if_splits)
  have "\<bar>y\<bar> = rd \<bar>x\<bar>" using rd_nonneg [OF a] y by simp
  then show ?thesis using rd_finite_le_max [OF a lt] by simp
qed

lemma rnd_finite:
  assumes "\<bar>x\<bar> \<le> float_max"
  shows "\<exists>y. rnd x = Fl y"
proof (cases "x = 0")
  case True
  then show ?thesis by (simp add: rnd_def)
next
  case False
  then have a: "0 < \<bar>x\<bar>" by simp
  have "rd \<bar>x\<bar> < 2 ^ 1024"
    using rd_le_max [OF a assms] float_max_less by (rule le_less_trans)
  then show ?thesis by (simp add: rnd_def)
qed

lemma rnd_ge_one:
  assumes "1 \<le> x" "rnd x = Fl y"
  shows "1 \<le> y"
proof -
  have "y = rd \<bar>x\<bar>" using assms by (auto simp add: rnd_def split: if_splits)
  moreover have "1 \<le> rd \<bar>x\<bar>" using assms(1) by (intro rd_ge_one) simp
  ultimately show ?thesis by simp
qed

subsection \<open>Evaluating the rounding at a given number\<close>

lemma rhe_eval:
  assumes "of_int m - 1 / 2 < y" "y < of_int m + 1 / 2"
  shows "round_half_even y = m"
proof -
  have "of_int (round_half_even y) < (of_int (m + 1) :: rat)"
    using rhe_bounds(2) [of y] assms by simp
  moreover have "(of_int (m - 1) :: rat) < of_int (round_half_even y)"
    using rhe_bounds(1) [of y] assms by simp
  ultimately have "round_half_even y < m + 1" "m - 1 < round_half_even y"
    by (simp_all only: of_int_less_iff)
  then show ?thesis by simp
qed

lemma rhe_tie: "round_half_even (of_int k + 1 / 2) = (if even k then k else k + 1)"
proof -
  have "\<lfloor>(of_int k :: rat) + 1 / 2\<rfloor> = k" by linarith
  then show ?thesis by (simp add: round_half_even_def Let_def)
qed

lemma rd_eval_gen:
  assumes "2 powi e \<le> x" "x < 2 powi (e + 1)" "- 1022 \<le> e" "e \<le> 1022"
    and "round_half_even (x / 2 powi (e - 52)) = m"
  shows "rd x = of_int m * 2 powi (e - 52)" and "rd x < 2 ^ 1024" and "0 < x"
proof -
  show pos: "0 < x" using assms(1) by (rule less_le_trans [rotated]) simp
  have il: "ilog2 x = e" using pos assms(1,2) by (rule ilog2_unique)
  have u: "ulp x = 2 powi (e - 52)" using assms(3) by (simp add: ulp_def il)
  show "rd x = of_int m * 2 powi (e - 52)" using assms(5) by (simp add: rd_def u)
  have "rd x \<le> 2 powi (max (ilog2 x) (- 1022) + 1)" by (rule rd_le_pow [OF pos])
  also have "\<dots> \<le> 2 powi 1023"
    using assms(3,4) by (intro power_int_increasing) (simp_all add: il)
  also have "\<dots> < 2 ^ 1024" by simp
  finally show "rd x < 2 ^ 1024" .
qed

lemma rd_eval:
  assumes "2 powi e \<le> x" "x < 2 powi (e + 1)" "- 1022 \<le> e" "e \<le> 1022"
    and "(of_int m - 1 / 2) * 2 powi (e - 52) < x" "x < (of_int m + 1 / 2) * 2 powi (e - 52)"
  shows "rd x = of_int m * 2 powi (e - 52)" and "rd x < 2 ^ 1024" and "0 < x"
proof -
  have upos: "(0::rat) < 2 powi (e - 52)" by simp
  have r: "round_half_even (x / 2 powi (e - 52)) = m"
    using assms(5,6) upos by (intro rhe_eval) (simp_all add: pos_less_divide_eq pos_divide_less_eq)
  note g = rd_eval_gen [OF assms(1-4) r]
  show "rd x = of_int m * 2 powi (e - 52)" by (rule g(1))
  show "rd x < 2 ^ 1024" by (rule g(2))
  show "0 < x" by (rule g(3))
qed

lemma rnd_eval_tie:
  assumes "2 powi e \<le> x" "x < 2 powi (e + 1)" "- 1022 \<le> e" "e \<le> 1022"
    and "x = (of_int k + 1 / 2) * 2 powi (e - 52)" "m = (if even k then k else k + 1)"
    and "y = of_int m * 2 powi (e - 52)"
  shows "rnd x = Fl y"
proof -
  have "x / 2 powi (e - 52) = of_int k + 1 / 2" by (simp add: assms(5))
  then have r: "round_half_even (x / 2 powi (e - 52)) = m"
    by (simp only: rhe_tie assms(6))
  from rd_eval_gen [OF assms(1-4) r] assms(7) show ?thesis by (simp add: rnd_def)
qed

lemma rnd_eval:
  assumes "2 powi e \<le> x" "x < 2 powi (e + 1)" "- 1022 \<le> e" "e \<le> 1022"
    and "(of_int m - 1 / 2) * 2 powi (e - 52) < x" "x < (of_int m + 1 / 2) * 2 powi (e - 52)"
    and "y = of_int m * 2 powi (e - 52)"
  shows "rnd x = Fl y"
  using rd_eval [OF assms(1-6)] assms(7) by (simp add: rnd_def)

lemma rnd_eval_neg:
  assumes "2 powi e \<le> - x" "- x < 2 powi (e + 1)" "- 1022 \<le> e" "e \<le> 1022"
    and "(of_int m - 1 / 2) * 2 powi (e - 52) < - x" "- x < (of_int m + 1 / 2) * 2 powi (e - 52)"
    and "y = - (of_int m * 2 powi (e - 52))"
  shows "rnd x = Fl y"
proof -
  note r = rd_eval [OF assms(1-6)]
  from r(3) have "x < 0" by simp
  then have "\<bar>x\<bar> = - x" by simp
  with r \<open>x < 0\<close> assms(7) show ?thesis by (simp add: rnd_def)
qed

lemma trunc_eval:
  assumes "of_int n \<le> x" "x < of_int n + 1" "0 \<le> n"
  shows "trunc x = n"
proof -
  have "0 \<le> x" using assms(1,3) by (meson of_int_0_le_iff order_trans)
  moreover have "\<lfloor>x\<rfloor> = n" using assms(1,2) by (intro floor_unique) simp_all
  ultimately show ?thesis by (simp add: trunc_def)
qed

section \<open>The focal-length formatter and the totality of the formatters\<close>

lemma bind_Inr [simp]: "bind (Inr x) f = f x"
  by (simp add: bind_def)

lemma bind_Inl [simp]: "bind (Inl e) f = Inl e"
  by (simp add: bind_def)

lemma flt_zero_not_fle: "flt (Fl 0) t \<Longrightarrow> \<not> fle t (Fl 0)"
  by (cases t) (auto simp add: flt_def fle_def)

lemma format_focal_positive:
  assumes "rational_to_float bi v = Inr (Some t)" and "flt (Fl 0) t"
  shows "format_focal bi v = Inl NameError"
  using assms flt_zero_not_fle [of t] by (simp add: format_focal_def)

lemma lit_50: "lit 50 = Fl (50)"
  unfolding lit_def by (rule rnd_eval [where e = "5" and m = 7036874417766400]) simp_all

lemma lit_35_5: "lit (71 / 2) = Fl (71 / 2)"
  unfolding lit_def by (rule rnd_eval [where e = "5" and m = 4996180836614144]) simp_all

text \<open>
  C1 (the code departs from the claim). The claim: for every raw value that normalizes
  to a positive float, the focal-length formatter returns the value with one decimal
  and \<open>mm\<close>, trailing zero and point stripped, so that 50.0 gives \<open>50mm\<close> and 35.5 gives
  \<open>35.5mm\<close>. The code: for every such value \<open>_format_focal\<close> raises \<open>NameError\<close>,
  because its f-string reads the unbound name \<open>f\<close> instead of \<open>fl\<close>. The sibling
  \<open>_format_fnumber\<close> binds and reads \<open>f\<close> and returns the stripped string.
\<close>

theorem format_focal_raises:
  "rational_to_float bi v = Inr (Some t) \<and> flt (Fl 0) t \<longrightarrow> format_focal bi v = Inl NameError"
  using format_focal_positive [of bi v t] by blast

theorem format_focal_raises_witness:
  "rational_to_float plain_builtins (PFloat (lit 50)) = Inr (Some (Fl 50))
   \<and> flt (Fl 0) (Fl 50)
   \<and> format_focal plain_builtins (PFloat (lit 50)) = Inl NameError"
proof -
  have n: "rational_to_float plain_builtins (PFloat (lit 50)) = Inr (Some (Fl 50))"
    by (simp add: rational_to_float_def lit_50)
  have p: "flt (Fl 0) (Fl 50)"
    by (simp add: flt_def)
  from format_focal_raises [of plain_builtins "PFloat (lit 50)" "Fl 50"] n p
  show ?thesis by blast
qed

text \<open>
  C2 (the code departs from the claim). The claim: each of the four formatters
  terminates without raising on every input and returns \<open>None\<close> on failure. The code:
  the focal-length formatter raises \<open>NameError\<close> on the focal length 50 as the image
  library delivers it (a rational) and on 35.5, and the exception leaves
  \<open>extract_camera_params\<close>, which calls the formatter outside any \<open>try\<close>; the
  exposure-time formatter raises \<open>ValueError\<close> on a NaN and \<open>OverflowError\<close> on an
  infinity, where \<open>round\<close> has no integer to return.
\<close>

theorem formatters_raise:
  "format_focal bi (PRational 50) = Inl NameError
   \<and> format_focal bi (PFloat (lit (71 / 2))) = Inl NameError
   \<and> extract_camera_params bi [''FocalLength'' \<mapsto> PRational 50] = Inl NameError
   \<and> format_exposure_time bi (PFloat NaN) = Inl ValueError
   \<and> format_exposure_time bi (PFloat PosInf) = Inl OverflowError"
proof -
  have r50: "rnd 50 = Fl 50" using lit_50 by (simp add: lit_def)
  have a: "rational_to_float bi (PRational 50) = Inr (Some (Fl 50))"
    by (simp add: rational_to_float_def r50)
  have f1: "format_focal bi (PRational 50) = Inl NameError"
    using a by (rule format_focal_positive) (simp add: flt_def)
  have b: "rational_to_float bi (PFloat (lit (71 / 2))) = Inr (Some (Fl (71 / 2)))"
    by (simp add: rational_to_float_def lit_35_5)
  have f2: "format_focal bi (PFloat (lit (71 / 2))) = Inl NameError"
    using b by (rule format_focal_positive) (simp add: flt_def)
  have f3: "extract_camera_params bi [''FocalLength'' \<mapsto> PRational 50] = Inl NameError"
    by (simp add: extract_camera_params_def exif_get_def Let_def f1)
  have f4: "format_exposure_time bi (PFloat NaN) = Inl ValueError"
    by (simp add: format_exposure_time_def rational_to_float_def fle_def flt_def)
  have f5: "format_exposure_time bi (PFloat PosInf) = Inl OverflowError"
    by (simp add: format_exposure_time_def rational_to_float_def fle_def flt_def)
  from f1 f2 f3 f4 f5 show ?thesis by blast
qed

section \<open>The rational normalizer\<close>

lemma rational_to_float_direct:
  "py_float bi v = Inr x \<Longrightarrow> rational_to_float bi v = Inr (Some x)"
  by (simp add: rational_to_float_def)

lemma py_float_pair [simp]:
  "py_float bi (PTuple vs) = Inl TypeError" "py_float bi (PList vs) = Inl TypeError"
  by simp_all

lemma rational_to_float_total: "\<exists>r. rational_to_float bi v = Inr r"
  by (simp add: rational_to_float_def split: sum.split option.split prod.split)

lemma rational_to_float_pair:
  "rational_to_float bi (PTuple [num, den]) =
     (case bind (py_float bi num) (\<lambda>a. bind (py_float bi den) (\<lambda>b. fdiv a b)) of
        Inr q \<Rightarrow> Inr (Some q) | Inl e \<Rightarrow> Inr None)"
  "rational_to_float bi (PList [num, den]) =
     (case bind (py_float bi num) (\<lambda>a. bind (py_float bi den) (\<lambda>b. fdiv a b)) of
        Inr q \<Rightarrow> Inr (Some q) | Inl e \<Rightarrow> Inr None)"
  by (simp_all add: rational_to_float_def)

lemma fdiv_zero: "fdiv a (Fl 0) = Inl ZeroDivisionError"
  by simp

lemma rnd_small:
  "rnd 0 = Fl 0" "rnd 1 = Fl 1" "rnd 2 = Fl 2" "rnd 4 = Fl 4" "rnd (1 / 4) = Fl (1 / 4)"
proof -
  show "rnd 0 = Fl 0" by (simp add: rnd_def)
  show "rnd 1 = Fl 1" by (rule rnd_eval [where e = 0 and m = "2 ^ 52"]) simp_all
  show "rnd 2 = Fl 2" by (rule rnd_eval [where e = 1 and m = "2 ^ 52"]) simp_all
  show "rnd 4 = Fl 4" by (rule rnd_eval [where e = 2 and m = "2 ^ 52"]) simp_all
  show "rnd (1 / 4) = Fl (1 / 4)" by (rule rnd_eval [where e = "- 2" and m = "2 ^ 52"]) simp_all
qed

lemma float_of_int_small:
  "float_of_int 0 = Inr (Fl 0)" "float_of_int 1 = Inr (Fl 1)"
  "float_of_int 2 = Inr (Fl 2)" "float_of_int 4 = Inr (Fl 4)"
  by (simp_all add: float_of_int_def rnd_small)

lemma rnd_quarter: "rnd (1 / 4) = Fl (1 / 4)"
  by (rule rnd_small)

text \<open>
  C6. For every input value the rational normalizer returns without raising. A value
  that \<open>float\<close> accepts gives that float. A pair (tuple or list of two elements) gives
  numerator divided by denominator, and \<open>None\<close> when the division fails: the
  denominator is zero, or an element is not numeric. \<open>None\<close> (null) gives \<open>None\<close>, and so
  does every value that \<open>float\<close> rejects and that is not a pair.
\<close>

theorem rational_to_float_contract:
  "(\<exists>r. rational_to_float bi v = Inr r)
   \<and> (py_float bi v = Inr x \<longrightarrow> rational_to_float bi v = Inr (Some x))
   \<and> (py_float bi num = Inr a \<and> py_float bi den = Inr b \<and> fdiv a b = Inr q \<longrightarrow>
        rational_to_float bi (PTuple [num, den]) = Inr (Some q)
        \<and> rational_to_float bi (PList [num, den]) = Inr (Some q))
   \<and> (py_float bi den = Inr (Fl 0) \<longrightarrow>
        rational_to_float bi (PTuple [num, den]) = Inr None
        \<and> rational_to_float bi (PList [num, den]) = Inr None)
   \<and> (py_float bi num = Inl e1 \<or> py_float bi den = Inl e2 \<longrightarrow>
        rational_to_float bi (PTuple [num, den]) = Inr None
        \<and> rational_to_float bi (PList [num, den]) = Inr None)
   \<and> rational_to_float bi PNone = Inr None
   \<and> (py_float bi v = Inl e3 \<and> two_elements v = None \<longrightarrow> rational_to_float bi v = Inr None)"
proof (intro conjI impI)
  show "\<exists>r. rational_to_float bi v = Inr r" by (rule rational_to_float_total)
next
  assume "py_float bi v = Inr x"
  then show "rational_to_float bi v = Inr (Some x)" by (rule rational_to_float_direct)
next
  assume h: "py_float bi num = Inr a \<and> py_float bi den = Inr b \<and> fdiv a b = Inr q"
  then show "rational_to_float bi (PTuple [num, den]) = Inr (Some q)"
    by (simp add: rational_to_float_pair)
  from h show "rational_to_float bi (PList [num, den]) = Inr (Some q)"
    by (simp add: rational_to_float_pair)
next
  assume h: "py_float bi den = Inr (Fl 0)"
  then show "rational_to_float bi (PTuple [num, den]) = Inr None"
    by (cases "py_float bi num") (simp_all add: rational_to_float_pair)
  from h show "rational_to_float bi (PList [num, den]) = Inr None"
    by (cases "py_float bi num") (simp_all add: rational_to_float_pair)
next
  assume h: "py_float bi num = Inl e1 \<or> py_float bi den = Inl e2"
  then show "rational_to_float bi (PTuple [num, den]) = Inr None"
    by (cases "py_float bi num") (auto simp add: rational_to_float_pair)
  from h show "rational_to_float bi (PList [num, den]) = Inr None"
    by (cases "py_float bi num") (auto simp add: rational_to_float_pair)
next
  show "rational_to_float bi PNone = Inr None"
    by (simp add: rational_to_float_def)
next
  assume "py_float bi v = Inl e3 \<and> two_elements v = None"
  then show "rational_to_float bi v = Inr None"
    by (simp add: rational_to_float_def)
qed

theorem rational_to_float_contract_witness:
  "rational_to_float plain_builtins (PInt 2) = Inr (Some (Fl 2))
   \<and> rational_to_float plain_builtins (PTuple [PInt 1, PInt 4]) = Inr (Some (Fl (1 / 4)))
   \<and> rational_to_float plain_builtins (PList [PInt 1, PInt 4]) = Inr (Some (Fl (1 / 4)))
   \<and> rational_to_float plain_builtins (PTuple [PInt 1, PInt 0]) = Inr None
   \<and> rational_to_float plain_builtins (PList [PStr ''x'', PInt 4]) = Inr None
   \<and> rational_to_float plain_builtins PNone = Inr None
   \<and> rational_to_float plain_builtins (PStr ''garbage'') = Inr None"
proof -
  have d: "fdiv (Fl 1) (Fl 4) = Inr (Fl (1 / 4))" by (simp add: rnd_quarter)
  have s: "py_float plain_builtins (PStr ''x'') = Inl ValueError"
    "py_float plain_builtins (PStr ''garbage'') = Inl ValueError"
    by (simp_all add: plain_builtins_def)
  note t = rational_to_float_contract [where bi = plain_builtins]
  have 1: "rational_to_float plain_builtins (PInt 2) = Inr (Some (Fl 2))"
    using t [of "PInt 2" "Fl 2"] by (simp add: float_of_int_small)
  have 2: "rational_to_float plain_builtins (PTuple [PInt 1, PInt 4]) = Inr (Some (Fl (1 / 4)))
      \<and> rational_to_float plain_builtins (PList [PInt 1, PInt 4]) = Inr (Some (Fl (1 / 4)))"
    using t [of _ _ "PInt 1" "Fl 1" "PInt 4" "Fl 4" "Fl (1 / 4)"] d
    by (simp add: float_of_int_small)
  have 3: "rational_to_float plain_builtins (PTuple [PInt 1, PInt 0]) = Inr None"
    using t [of _ _ "PInt 1" _ "PInt 0"] by (simp add: float_of_int_small)
  have 4: "rational_to_float plain_builtins (PList [PStr ''x'', PInt 4]) = Inr None"
    using t [of _ _ "PStr ''x''" _ "PInt 4" _ _ ValueError] s by simp
  have 5: "rational_to_float plain_builtins PNone = Inr None"
    using t by simp
  have 6: "rational_to_float plain_builtins (PStr ''garbage'') = Inr None"
    using t [of "PStr ''garbage''" _ _ _ _ _ _ _ _ ValueError] s by simp
  from 1 2 3 4 5 6 show ?thesis by simp
qed

section \<open>The metadata line\<close>

lemma str_join_nonempty: "x \<noteq> [] \<Longrightarrow> str_join sep (x # xs) \<noteq> []"
  by (cases xs) simp_all

lemma meta_pieces_nonempty_elems:
  assumes "s \<in> set (meta_pieces params)"
  shows "s \<noteq> []"
proof -
  from assms obtain k where k: "dict_truthy params k" "s = the (params k)"
    unfolding meta_pieces_def set_map set_filter by blast
  then show ?thesis by (cases "params k") (simp_all add: dict_truthy_def)
qed

lemma meta_line_nonempty: "meta_line params \<noteq> []"
proof (cases "meta_pieces params")
  case Nil
  then show ?thesis by (simp add: meta_line_def)
next
  case (Cons x xs)
  then have "x \<noteq> []" using meta_pieces_nonempty_elems [of x params] by simp
  then show ?thesis using Cons by (simp add: meta_line_def str_join_nonempty)
qed

lemma dict_truthy_present:
  assumes "\<forall>k s. params k = Some s \<longrightarrow> s \<noteq> []"
  shows "dict_truthy params = (\<lambda>k. params k \<noteq> None)"
proof
  fix k
  show "dict_truthy params k = (params k \<noteq> None)"
    using assms by (cases "params k") (auto simp add: dict_truthy_def)
qed

text \<open>
  C5. For every CameraParams dictionary (a dictionary whose values are non-empty
  strings, as the data model has it; \<open>extract_camera_params\<close> stores each of the four
  fields under that test), the metadata line is the double-space join of the present fields among focal, fnumber,
  shutter and iso, in that order, and the sentinel \<open>No EXIF Data\<close> when none of the four
  is present. The line is never empty, for any dictionary.
\<close>

theorem meta_line_assembly:
  "((\<forall>k s. params k = Some s \<longrightarrow> s \<noteq> []) \<longrightarrow>
      meta_line params =
        (let present = filter (\<lambda>k. params k \<noteq> None) [''focal'', ''fnumber'', ''shutter'', ''iso'']
         in if present = [] then ''No EXIF Data''
            else str_join ''  '' (map (\<lambda>k. the (params k)) present)))
   \<and> meta_line params \<noteq> []"
proof (intro conjI impI)
  assume inv: "\<forall>k s. params k = Some s \<longrightarrow> s \<noteq> []"
  show "meta_line params =
        (let present = filter (\<lambda>k. params k \<noteq> None) [''focal'', ''fnumber'', ''shutter'', ''iso'']
         in if present = [] then ''No EXIF Data''
            else str_join ''  '' (map (\<lambda>k. the (params k)) present))"
    unfolding meta_line_def meta_pieces_def dict_truthy_present [OF inv] Let_def
    by (simp only: map_is_Nil_conv if_not_P split: if_split) simp
next
  show "meta_line params \<noteq> []" by (rule meta_line_nonempty)
qed

theorem meta_line_assembly_witness:
  "meta_line [''focal'' \<mapsto> ''50mm'', ''iso'' \<mapsto> ''ISO100''] = ''50mm  ISO100''
   \<and> meta_line Map.empty = ''No EXIF Data''
   \<and> meta_line [''focal'' \<mapsto> ''50mm'', ''iso'' \<mapsto> ''ISO100''] \<noteq> []"
proof -
  have inv1: "\<forall>k s. [''focal'' \<mapsto> ''50mm'', ''iso'' \<mapsto> ''ISO100''] k = Some s \<longrightarrow> s \<noteq> []"
    by (auto split: if_splits)
  have inv2: "\<forall>k s. (Map.empty :: string \<rightharpoonup> string) k = Some s \<longrightarrow> s \<noteq> []"
    by simp
  from meta_line_assembly [of "[''focal'' \<mapsto> ''50mm'', ''iso'' \<mapsto> ''ISO100'']"] inv1
  have 1: "meta_line [''focal'' \<mapsto> ''50mm'', ''iso'' \<mapsto> ''ISO100''] = ''50mm  ISO100''"
    and 3: "meta_line [''focal'' \<mapsto> ''50mm'', ''iso'' \<mapsto> ''ISO100''] \<noteq> []"
    by (simp_all add: Let_def)
  from meta_line_assembly [of "Map.empty"] inv2
  have 2: "meta_line Map.empty = ''No EXIF Data''"
    by (simp add: Let_def)
  from 1 2 3 show ?thesis by simp
qed

section \<open>Font resolution and logo placement\<close>

lemma load_font_first_failure:
  assumes "p \<noteq> []" "path_exists env p" "\<not> truetype env p sz"
  shows "load_font env (p # ps) sz = Inl NameError"
  using assms by simp

lemma load_font_skip:
  assumes "p = [] \<or> \<not> path_exists env p"
  shows "load_font env (p # ps) sz = load_font env ps sz"
  using assms by auto

text \<open>
  C7 (the code departs from the claim). The claim: a candidate font that exists but
  fails to load is logged, the search goes on, and the function never raises. The code:
  at the first candidate that exists and fails to load, the handler's message reads the
  unbound name \<open>path\<close> and \<open>load_font\<close> raises \<open>NameError\<close>, whatever candidates follow.
  Here the second candidate would never be reached, and neither is the default face.
\<close>

theorem load_font_raises:
  "load_font example_env [''missing.ttf'', ''bad.ttf'', ''arial.ttf''] 62 = Inl NameError"
proof -
  have 1: "\<not> path_exists example_env ''missing.ttf''" by (simp add: example_env_def)
  have 2: "path_exists example_env ''bad.ttf''" by (simp add: example_env_def)
  have 3: "\<not> truetype example_env ''bad.ttf'' 62" by (simp add: example_env_def)
  have "load_font example_env [''missing.ttf'', ''bad.ttf'', ''arial.ttf''] 62
      = load_font example_env [''bad.ttf'', ''arial.ttf''] 62"
    using 1 by (intro load_font_skip) simp
  also have "\<dots> = Inl NameError"
    using 2 3 by (intro load_font_first_failure) simp_all
  finally show ?thesis .
qed

lemma bind_raises: "(\<And>x. \<exists>e. f x = Inl e) \<Longrightarrow> \<exists>e. bind m f = Inl e"
  by (cases m) simp_all

lemma paste_logo_tall:
  assumes "open_logo env lp = Some (w, h)" "max_height < h"
  shows "\<exists>e. paste_logo_center env cw lp max_height y = Inl e"
  unfolding paste_logo_center_def using assms
  by (simp del: bind_Inl bind_Inr) (intro bind_raises, simp)

lemma rnd_logo:
  "rnd 100 = Fl 100" "rnd 50 = Fl 50" "rnd 200 = Fl 200" "rnd (1 / 2) = Fl (1 / 2)"
proof -
  show "rnd 100 = Fl 100" by (rule rnd_eval [where e = 6 and m = "100 * 2 ^ 46"]) simp_all
  show "rnd 50 = Fl 50" by (rule rnd_eval [where e = 5 and m = "50 * 2 ^ 47"]) simp_all
  show "rnd 200 = Fl 200" by (rule rnd_eval [where e = 7 and m = "200 * 2 ^ 45"]) simp_all
  show "rnd (1 / 2) = Fl (1 / 2)" by (rule rnd_eval [where e = "- 1" and m = "2 ^ 52"]) simp_all
qed

text \<open>
  C8 (the code departs from the claim). The claim: a logo is scaled, preserving its
  aspect ratio, to a height of at most \<open>logo_max_height\<close>. The code: for a logo of 200
  by 100 pixels and a maximal height of 50, the scale 0.5 and the new size (100, 50) are
  computed and the logo is resized, and then \<open>w, h = logo\<close> unpacks the image object in
  place of its size: \<open>paste_logo_center\<close> raises \<open>TypeError\<close>. The other parts of the
  claim hold: a logo that is not taller is pasted unscaled and horizontally centred,
  and a logo that does not decode gives height 0 without an exception.
\<close>

theorem paste_logo_center_raises:
  "paste_logo_center example_env 625 ''tall.png'' 50 700 = Inl TypeError
   \<and> paste_logo_center example_env 625 ''logo.png'' 50 700 = Inr ((730, 30), [PasteLogo 292 700 40 30])
   \<and> paste_logo_center example_env 625 ''none.png'' 50 700 = Inr ((700, 0), [])"
proof -
  have s: "fdiv (Fl 50) (Fl 100) = Inr (Fl (1 / 2))" by (simp add: rnd_logo)
  have 1: "paste_logo_center example_env 625 ''tall.png'' 50 700 = Inl TypeError"
    by (simp add: paste_logo_center_def example_env_def float_of_int_def rnd_logo trunc_def)
  have 2: "paste_logo_center example_env 625 ''logo.png'' 50 700
      = Inr ((730, 30), [PasteLogo 292 700 40 30])"
    by (simp add: paste_logo_center_def example_env_def Let_def)
  have 3: "paste_logo_center example_env 625 ''none.png'' 50 700 = Inr ((700, 0), [])"
    by (simp add: paste_logo_center_def example_env_def)
  from 1 2 3 show ?thesis by simp
qed

section \<open>The output path\<close>

lemma lower_char_slash: "lower_char (CHR ''/'') = CHR ''/''"
  by (simp add: lower_char_def)

lemma endswith_short:
  assumes "length p < 4"
  shows "\<not> endswith (lower p) ''.jpg''"
proof
  assume "endswith (lower p) ''.jpg''"
  then have "length (take (length ''.jpg'') (rev (lower p))) = length (rev ''.jpg'')"
    unfolding endswith_def by (rule arg_cong)
  with assms show False by (simp add: lower_def)
qed

lemma endswith_after_slash:
  assumes "length p < 4"
  shows "\<not> endswith (lower (X @ CHR ''/'' # p)) ''.jpg''"
proof
  assume a: "endswith (lower (X @ CHR ''/'' # p)) ''.jpg''"
  have r: "rev (lower (X @ CHR ''/'' # p)) = rev (lower p) @ CHR ''/'' # rev (lower X)"
    by (simp add: lower_def lower_char_slash)
  define q where "q = rev (lower p)"
  have lq: "length q < 4" using assms by (simp add: q_def lower_def)
  have t: "take (length ''.jpg'') (q @ CHR ''/'' # rev (lower X)) = rev ''.jpg''"
    using a unfolding endswith_def r q_def .
  have "take (length ''.jpg'') (q @ CHR ''/'' # rev (lower X)) ! length q
      = (q @ CHR ''/'' # rev (lower X)) ! length q"
    using lq by (intro nth_take) simp
  then have "rev ''.jpg'' ! length q = CHR ''/''"
    unfolding t by (simp add: nth_append)
  moreover from lq have "length q = 0 \<or> length q = 1 \<or> length q = 2 \<or> length q = 3"
    by linarith
  ultimately show False by auto
qed

lemma endswith_long:
  assumes "4 \<le> length p"
  shows "endswith (lower (X @ p)) ''.jpg'' = endswith (lower p) ''.jpg''"
  using assms by (simp add: endswith_def lower_def)

lemma endswith_jpg_prefix:
  assumes "X = [] \<or> last X = CHR ''/''"
  shows "endswith (lower (X @ p)) ''.jpg'' = endswith (lower p) ''.jpg''"
proof (cases "4 \<le> length p")
  case True
  then show ?thesis by (rule endswith_long)
next
  case False
  then have short: "length p < 4" by simp
  show ?thesis
  proof (cases "X = []")
    case True
    then show ?thesis by simp
  next
    case False
    with assms have "X = butlast X @ [CHR ''/'']" by (metis append_butlast_last_id)
    then have e: "X @ p = butlast X @ CHR ''/'' # p" by (metis append_Cons append_Nil append_assoc)
    show ?thesis
      unfolding e using endswith_after_slash [OF short, of "butlast X"] endswith_short [OF short]
      by simp
  qed
qed

lemma endswith_after_sep:
  "endswith (lower (X @ CHR ''/'' # p)) ''.jpg'' = endswith (lower p) ''.jpg''"
  using endswith_jpg_prefix [of "X @ ''/''" p] by simp

lemma endswith_os_join:
  "endswith (lower (os_join cwd p)) ''.jpg'' = endswith (lower p) ''.jpg''"
  by (auto simp add: os_join_def endswith_jpg_prefix endswith_after_sep)

lemma output_path_eq:
  "output_path cwd p =
     (if os_dirname p = [] then os_join cwd p else p) @
     (if endswith (lower p) ''.jpg'' then [] else ''.jpg'')"
  by (simp add: output_path_def Let_def endswith_os_join)

section \<open>Rounding at the numbers of the examples\<close>

lemma lit_18: "lit (9 / 50) = Fl (3242591731706757 / 18014398509481984)"
  unfolding lit_def by (rule rnd_eval [where e = "- 3" and m = 6485183463413514]) simp_all

lemma lit_06: "lit (3 / 50) = Fl (1080863910568919 / 18014398509481984)"
  unfolding lit_def by (rule rnd_eval [where e = "- 5" and m = 8646911284551352]) simp_all

lemma lit_026: "lit (13 / 500) = Fl (7493989779944505 / 288230376151711744)"
  unfolding lit_def by (rule rnd_eval [where e = "- 6" and m = 7493989779944505]) simp_all

lemma lit_08: "lit (2 / 25) = Fl (5764607523034235 / 72057594037927936)"
  unfolding lit_def by (rule rnd_eval [where e = "- 4" and m = 5764607523034235]) simp_all

lemma lit_015: "lit (3 / 200) = Fl (1080863910568919 / 72057594037927936)"
  unfolding lit_def by (rule rnd_eval [where e = "- 7" and m = 8646911284551352]) simp_all

lemma rnd_10: "rnd (10) = Fl (10)"
  by (rule rnd_eval [where e = "3" and m = 5629499534213120]) simp_all

lemma rnd_1000: "rnd (1000) = Fl (1000)"
  by (rule rnd_eval [where e = "9" and m = 8796093022208000]) simp_all

lemma rnd_1040: "rnd (1040) = Fl (1040)"
  by (rule rnd_eval [where e = "10" and m = 4573968371548160]) simp_all

lemma band_10: "rnd (16212958658533785 / 9007199254740992) = Fl (2026619832316723 / 1125899906842624)"
  by (rule rnd_eval_tie [where e = "0" and k = 8106479329266892 and m = 8106479329266892]) simp_all

lemma trunc_band_10: "trunc (2026619832316723 / 1125899906842624) = 1"
  by (rule trunc_eval) simp_all

lemma band_1000: "rnd (405323966463344625 / 2251799813685248) = Fl (180)"
  by (rule rnd_eval [where e = "7" and m = 6333186975989760]) simp_all

lemma trunc_band_1000: "trunc (180) = 180"
  by (rule trunc_eval) simp_all

lemma brand_1040: "rnd (70256154186979735 / 1125899906842624) = Fl (8782019273372467 / 140737488355328)"
  by (rule rnd_eval [where e = "5" and m = 8782019273372467]) simp_all

lemma trunc_brand_1040: "trunc (8782019273372467 / 140737488355328) = 62"
  by (rule trunc_eval) simp_all

lemma meta_1040: "rnd (487109335696392825 / 18014398509481984) = Fl (3805541685128069 / 140737488355328)"
  by (rule rnd_eval [where e = "4" and m = 7611083370256138]) simp_all

lemma trunc_meta_1040: "trunc (3805541685128069 / 140737488355328) = 27"
  by (rule trunc_eval) simp_all

lemma gap_1040: "rnd (70256154186979735 / 4503599627370496) = Fl (8782019273372467 / 562949953421312)"
  by (rule rnd_eval [where e = "3" and m = 8782019273372467]) simp_all

lemma trunc_gap_1040: "trunc (8782019273372467 / 562949953421312) = 15"
  by (rule trunc_eval) simp_all

lemma logo_1040: "rnd (374699488997225275 / 4503599627370496) = Fl (5854679515581645 / 70368744177664)"
  by (rule rnd_eval [where e = "6" and m = 5854679515581645]) simp_all

lemma trunc_logo_1040: "trunc (5854679515581645 / 70368744177664) = 83"
  by (rule trunc_eval) simp_all

section \<open>The composer on an example\<close>

lemma float_of_int_examples:
  "float_of_int 10 = Inr (Fl 10)" "float_of_int 1000 = Inr (Fl 1000)"
  "float_of_int 1040 = Inr (Fl 1040)"
  by (simp_all add: float_of_int_def rnd_10 rnd_1000 rnd_1040)

lemma canvas_dims_examples:
  "canvas_dims Nikon_like 10 10 = Inr (20, 50, 51)"
  "canvas_dims Nikon_like 1000 600 = Inr (20, 1040, 820)"
  by (simp_all add: canvas_dims_def ratio_px_def tpl_get_def Nikon_like_def float_of_int_examples
      lit_18 band_10 band_1000 trunc_band_10 trunc_band_1000)

lemma ratio_px_examples:
  "ratio_px Nikon_like ''brand_font_size_ratio'' 1040 = Inr 62"
  "ratio_px Nikon_like ''meta_font_size_ratio'' 1040 = Inr 27"
  "ratio_px Nikon_like ''gap_ratio'' 1040 = Inr 15"
  "ratio_px Nikon_like ''logo_max_height_ratio'' 1040 = Inr 83"
  by (simp_all add: ratio_px_def tpl_get_def Nikon_like_def float_of_int_examples
      lit_06 lit_026 lit_015 lit_08 brand_1040 meta_1040 gap_1040 logo_1040
      trunc_brand_1040 trunc_meta_1040 trunc_gap_1040 trunc_logo_1040)

lemma load_font_default: "load_font example_env default_fonts sz = Inr DefaultFont"
  by (simp add: default_fonts_def example_env_def)

lemma extract_plain: "extract_camera_params plain_builtins Map.empty = Inr Map.empty"
  by (simp add: extract_camera_params_def exif_get_def py_or_def put_if_def strip_def
      format_iso_def Let_def)

lemma layout_plain:
  "layout example_env Nikon_like None default_fonts ''Canon'' ''No EXIF Data'' 20 1040 820 600
     = Inr [DrawText ''Canon'' DefaultFont 495 624, DrawText ''No EXIF Data'' DefaultFont 460 659]"
proof -
  have ts: "text_size example_env = (\<lambda>s f. (10 * int (length s), 20))"
    by (simp add: example_env_def)
  have k: "tpl_get Nikon_like ''use_logo'' = Inr (TBool True)"
    "tpl_get Nikon_like ''text_color'' = Inr (TTuple [0, 0, 0])"
    "Nikon_like ''show_brand_text'' = Some (TBool True)"
    by (simp_all add: tpl_get_def Nikon_like_def)
  show ?thesis
    by (simp add: layout_def ratio_px_examples load_font_default k draw_centered_text_def ts Let_def)
qed

lemma output_path_examples:
  "output_path ''/home/user'' ''photo.png'' = ''/home/user/photo.png.jpg''"
  "output_path ''/home/user'' ''out/Photo.JPG'' = ''out/Photo.JPG''"
  "os_dirname ''/home/user/photo.png.jpg'' = ''/home/user''"
  by (simp_all add: output_path_def os_dirname_def os_join_def rstrip_def lower_def lower_char_def
      endswith_def Let_def char_of_eq_iff)

lemma example_run:
  "make_framed_image example_env ''plain.jpg'' ''photo.png'' None ''Nikon_like'' None =
     Inr (Some \<lparr>saved_to = ''/home/user/photo.png.jpg'', canvas_size = (1040, 820),
                 drawn = [Rectangle 0 0 1039 819, PasteSource 20 20,
                          DrawText ''Canon'' DefaultFont 495 624,
                          DrawText ''No EXIF Data'' DefaultFont 460 659]\<rparr>)"
proof -
  have e: "open_image example_env ''plain.jpg'' = Some \<lparr>img_size = (1000, 600), img_exif = Map.empty\<rparr>"
    "py example_env = plain_builtins" "getcwd example_env = ''/home/user''"
    "makedirs example_env = (\<lambda>p. True)" "save_file example_env = (\<lambda>p. True)"
    by (simp_all add: example_env_def)
  have t: "template_of ''Nikon_like'' = Nikon_like"
    by (simp add: template_of_def DeFAULT_TEMPLATE_def)
  have k: "tpl_get Nikon_like ''bg_color'' = Inr (TTuple [255, 255, 255])"
    "tpl_get Nikon_like ''border_color'' = Inr (TTuple [0, 0, 0])"
    by (simp_all add: tpl_get_def Nikon_like_def)
  have m: "meta_line Map.empty = ''No EXIF Data''"
    by (simp add: meta_line_def meta_pieces_def dict_truthy_def)
  show ?thesis
    by (simp add: make_framed_image_def e t k m extract_plain canvas_dims_examples layout_plain
        output_path_examples dict_truthy_def Let_def)
qed

lemma make_framed_image_result:
  assumes "make_framed_image env img p logo name fonts = Inr (Some res)"
  shows "\<exists>src b cw ch. open_image env img = Some src
      \<and> canvas_dims (template_of name) (fst (img_size src)) (snd (img_size src)) = Inr (b, cw, ch)
      \<and> canvas_size res = (cw, ch) \<and> saved_to res = output_path (getcwd env) p"
proof -
  from assms obtain src where src: "open_image env img = Some src"
    by (cases "open_image env img") (simp_all add: make_framed_image_def Let_def)
  obtain w h where wh: "img_size src = (w, h)" by (cases "img_size src")
  from assms src wh obtain b cw ch where c: "canvas_dims (template_of name) w h = Inr (b, cw, ch)"
    by (cases "canvas_dims (template_of name) w h")
       (auto simp add: make_framed_image_def Let_def bind_def split: sum.splits)
  from assms src wh c have "canvas_size res = (cw, ch) \<and> saved_to res = output_path (getcwd env) p"
    by (auto simp add: make_framed_image_def Let_def bind_def split: sum.splits if_splits)
  with src wh c show ?thesis by auto
qed

section \<open>The canvas size\<close>

lemma canvas_dims_float:
  assumes "tpl ''border_px'' = Some (TInt B)" "tpl ''bottom_band_ratio'' = Some (TFloat r)"
    and "float_of_int W = Inr fw" "fmul r fw = Fl p"
  shows "canvas_dims tpl W H = Inr (B, W + 2 * B, H + trunc p + 2 * B)"
  using assms by (simp add: canvas_dims_def ratio_px_def tpl_get_def)

text \<open>
  C3 (the claim as amended). The claim had the band height as \<open>round(r * W)\<close>, rounding
  and not truncation. The code computes \<open>int(r * W)\<close>, which truncates, as it does for
  every other length of the layout. As amended: for every source image of size (W, H),
  integer border width B and float band ratio r of the template, with W convertible to
  float and \<open>r * W\<close> finite, the canvas has size exactly
  (W + 2B, H + trunc(r * W) + 2B), where the product is the float product and the band
  height is its truncation toward zero; and a written result has the size the canvas
  computation gave.
\<close>

theorem canvas_size_truncates:
  "(tpl ''border_px'' = Some (TInt B) \<and> tpl ''bottom_band_ratio'' = Some (TFloat r)
      \<and> float_of_int W = Inr fw \<and> fmul r fw = Fl p \<longrightarrow>
        canvas_dims tpl W H = Inr (B, W + 2 * B, H + trunc p + 2 * B))
   \<and> (make_framed_image env img out logo name fonts = Inr (Some res) \<longrightarrow>
        (\<exists>src b. open_image env img = Some src
           \<and> canvas_dims (template_of name) (fst (img_size src)) (snd (img_size src))
               = Inr (b, canvas_size res)))"
proof (intro conjI impI)
  assume "tpl ''border_px'' = Some (TInt B) \<and> tpl ''bottom_band_ratio'' = Some (TFloat r)
      \<and> float_of_int W = Inr fw \<and> fmul r fw = Fl p"
  then show "canvas_dims tpl W H = Inr (B, W + 2 * B, H + trunc p + 2 * B)"
    using canvas_dims_float [of tpl B r W fw p H] by blast
next
  assume "make_framed_image env img out logo name fonts = Inr (Some res)"
  from make_framed_image_result [OF this]
  show "\<exists>src b. open_image env img = Some src
           \<and> canvas_dims (template_of name) (fst (img_size src)) (snd (img_size src))
               = Inr (b, canvas_size res)"
    by auto
qed

theorem canvas_size_truncates_witness:
  "Nikon_like ''border_px'' = Some (TInt 20)
   \<and> Nikon_like ''bottom_band_ratio'' = Some (TFloat (lit (18 / 100)))
   \<and> float_of_int 10 = Inr (Fl 10)
   \<and> fmul (lit (18 / 100)) (Fl 10) = Fl (2026619832316723 / 1125899906842624)
   \<and> canvas_dims Nikon_like 10 10 = Inr (20, 10 + 2 * 20, 10 + 1 + 2 * 20)
   \<and> make_framed_image example_env ''plain.jpg'' ''photo.png'' None ''Nikon_like'' None
       = Inr (Some \<lparr>saved_to = ''/home/user/photo.png.jpg'', canvas_size = (1040, 820),
                   drawn = [Rectangle 0 0 1039 819, PasteSource 20 20,
                            DrawText ''Canon'' DefaultFont 495 624,
                            DrawText ''No EXIF Data'' DefaultFont 460 659]\<rparr>)
   \<and> (\<exists>src b. open_image example_env ''plain.jpg'' = Some src
         \<and> canvas_dims (template_of ''Nikon_like'') (fst (img_size src)) (snd (img_size src))
             = Inr (b, (1040, 820)))"
proof -
  define R where "R = \<lparr>saved_to = ''/home/user/photo.png.jpg'', canvas_size = (1040, 820),
                   drawn = [Rectangle 0 0 1039 819, PasteSource 20 20,
                            DrawText ''Canon'' DefaultFont 495 624,
                            DrawText ''No EXIF Data'' DefaultFont 460 659]\<rparr>"
  have run: "make_framed_image example_env ''plain.jpg'' ''photo.png'' None ''Nikon_like'' None
      = Inr (Some R)"
    unfolding R_def by (rule example_run)
  have cs: "canvas_size R = (1040, 820)" by (simp add: R_def)
  have h1: "Nikon_like ''border_px'' = Some (TInt 20)"
    and h2: "Nikon_like ''bottom_band_ratio'' = Some (TFloat (lit (18 / 100)))"
    by (simp_all add: Nikon_like_def)
  have h3: "float_of_int 10 = Inr (Fl 10)" by (rule float_of_int_examples)
  have h4: "fmul (lit (18 / 100)) (Fl 10) = Fl (2026619832316723 / 1125899906842624)"
    by (simp add: lit_18 band_10)
  note t = canvas_size_truncates [where tpl = Nikon_like and B = 20 and r = "lit (18 / 100)"
      and W = 10 and fw = "Fl 10" and p = "2026619832316723 / 1125899906842624" and H = 10
      and env = example_env and img = "''plain.jpg''" and out = "''photo.png''" and logo = None
      and name = "''Nikon_like''" and fonts = None and res = R]
  from t h1 h2 h3 h4
  have "canvas_dims Nikon_like 10 10
      = Inr (20, 10 + 2 * 20, 10 + trunc (2026619832316723 / 1125899906842624) + 2 * 20)"
    by blast
  then have c: "canvas_dims Nikon_like 10 10 = Inr (20, 10 + 2 * 20, 10 + 1 + 2 * 20)"
    by (simp only: trunc_band_10)
  from t run
  have "\<exists>src b. open_image example_env ''plain.jpg'' = Some src
         \<and> canvas_dims (template_of ''Nikon_like'') (fst (img_size src)) (snd (img_size src))
             = Inr (b, canvas_size R)"
    by blast
  then have r: "\<exists>src b. open_image example_env ''plain.jpg'' = Some src
         \<and> canvas_dims (template_of ''Nikon_like'') (fst (img_size src)) (snd (img_size src))
             = Inr (b, (1040, 820))"
    by (simp only: cs)
  from h1 h2 h3 h4 c run [unfolded R_def] r show ?thesis by blast
qed

text \<open>
  The claim as stated fails for a source of 10 by 10 pixels and the template
  \<open>Nikon_like\<close> (border 20, band ratio 0.18): the float product is 1.7999999999999998,
  which \<open>int\<close> cuts to 1 and \<open>round\<close> would take to 2.
\<close>

theorem canvas_size_round_counterexample:
  "canvas_dims Nikon_like 10 10 = Inr (20, 50, 51)
   \<and> claimed_canvas_size 20 (lit (18 / 100)) 10 10 = Inr (50, 52)"
proof -
  have "round_half_even (2026619832316723 / 1125899906842624) = 2"
    by (rule rhe_eval) simp_all
  then have "claimed_canvas_size 20 (lit (18 / 100)) 10 10 = Inr (50, 52)"
    by (simp add: claimed_canvas_size_def float_of_int_examples lit_18 band_10)
  with canvas_dims_examples(1) show ?thesis by simp
qed

section \<open>The extension of the output path\<close>

text \<open>
  C10. The path the result is saved to is the output path (joined to the working
  directory when it has no directory part), with \<open>.jpg\<close> appended exactly when the
  lowercased output path does not end in \<open>.jpg\<close>: \<open>photo.png\<close> is saved as
  \<open>photo.png.jpg\<close> in the working directory, and a path that ends in \<open>.jpg\<close> in any
  letter case gets nothing appended.
\<close>

theorem output_path_jpg:
  "output_path cwd p =
     (if os_dirname p = [] then os_join cwd p else p) @
     (if endswith (lower p) ''.jpg'' then [] else ''.jpg'')
   \<and> (make_framed_image env img p logo name fonts = Inr (Some res) \<longrightarrow>
        saved_to res = output_path (getcwd env) p)"
proof (intro conjI impI)
  show "output_path cwd p =
     (if os_dirname p = [] then os_join cwd p else p) @
     (if endswith (lower p) ''.jpg'' then [] else ''.jpg'')"
    by (rule output_path_eq)
next
  assume "make_framed_image env img p logo name fonts = Inr (Some res)"
  from make_framed_image_result [OF this]
  show "saved_to res = output_path (getcwd env) p" by auto
qed

theorem output_path_jpg_witness:
  "output_path ''/home/user'' ''photo.png'' = ''/home/user/'' @ ''photo.png'' @ ''.jpg''
   \<and> output_path ''/home/user'' ''out/Photo.JPG'' = ''out/Photo.JPG''
   \<and> make_framed_image example_env ''plain.jpg'' ''photo.png'' None ''Nikon_like'' None
       = Inr (Some \<lparr>saved_to = ''/home/user/photo.png.jpg'', canvas_size = (1040, 820),
                   drawn = [Rectangle 0 0 1039 819, PasteSource 20 20,
                            DrawText ''Canon'' DefaultFont 495 624,
                            DrawText ''No EXIF Data'' DefaultFont 460 659]\<rparr>)
   \<and> output_path (getcwd example_env) ''photo.png'' = ''/home/user/photo.png.jpg''"
proof -
  define R where "R = \<lparr>saved_to = ''/home/user/photo.png.jpg'', canvas_size = (1040, 820),
                   drawn = [Rectangle 0 0 1039 819, PasteSource 20 20,
                            DrawText ''Canon'' DefaultFont 495 624,
                            DrawText ''No EXIF Data'' DefaultFont 460 659]\<rparr>"
  have run: "make_framed_image example_env ''plain.jpg'' ''photo.png'' None ''Nikon_like'' None
      = Inr (Some R)"
    unfolding R_def by (rule example_run)
  have sv: "saved_to R = ''/home/user/photo.png.jpg''" by (simp add: R_def)
  have d: "os_dirname ''photo.png'' = []" "os_dirname ''out/Photo.JPG'' = ''out''"
    "os_join ''/home/user'' ''photo.png'' = ''/home/user/photo.png''"
    "\<not> endswith (lower ''photo.png'') ''.jpg''" "endswith (lower ''out/Photo.JPG'') ''.jpg''"
    by (simp_all add: os_dirname_def os_join_def rstrip_def lower_def lower_char_def
        endswith_def Let_def char_of_eq_iff)
  note t = output_path_jpg [where env = example_env and img = "''plain.jpg''" and logo = None
      and name = "''Nikon_like''" and fonts = None and res = R]
  from t [where cwd = "''/home/user''" and p = "''photo.png''"]
  have "output_path ''/home/user'' ''photo.png'' =
     (if os_dirname ''photo.png'' = [] then os_join ''/home/user'' ''photo.png'' else ''photo.png'') @
     (if endswith (lower ''photo.png'') ''.jpg'' then [] else ''.jpg'')"
    by blast
  then have 1: "output_path ''/home/user'' ''photo.png'' = ''/home/user/'' @ ''photo.png'' @ ''.jpg''"
    by (simp add: d)
  from t [where cwd = "''/home/user''" and p = "''out/Photo.JPG''"]
  have "output_path ''/home/user'' ''out/Photo.JPG'' =
     (if os_dirname ''out/Photo.JPG'' = [] then os_join ''/home/user'' ''out/Photo.JPG''
      else ''out/Photo.JPG'') @
     (if endswith (lower ''out/Photo.JPG'') ''.jpg'' then [] else ''.jpg'')"
    by blast
  then have 2: "output_path ''/home/user'' ''out/Photo.JPG'' = ''out/Photo.JPG''"
    by (simp add: d)
  from t [where p = "''photo.png''"] run
  have "saved_to R = output_path (getcwd example_env) ''photo.png''" by blast
  then have 3: "output_path (getcwd example_env) ''photo.png'' = ''/home/user/photo.png.jpg''"
    by (simp only: sv)
  from 1 2 3 run [unfolded R_def] show ?thesis by blast
qed

section \<open>The exposure-time formatter\<close>

lemma float_max_int: "float_max = of_int (2 ^ 1024 - 2 ^ 971)"
  by (simp add: float_max_def)

lemma float_of_int_round:
  assumes "1 \<le> x" "x \<le> float_max"
  shows "\<exists>y. float_of_int (round_half_even x) = Inr (Fl y) \<and> 1 \<le> y"
proof -
  define d where "d = round_half_even x"
  have "of_int 1 \<le> x" using assms(1) by simp
  then have d1: "1 \<le> d" unfolding d_def by (rule rhe_ge)
  have "x \<le> of_int (2 ^ 1024 - 2 ^ 971)" using assms(2) by (simp only: float_max_int)
  then have "d \<le> 2 ^ 1024 - 2 ^ 971" unfolding d_def by (rule rhe_le)
  then have "(of_int d :: rat) \<le> of_int (2 ^ 1024 - 2 ^ 971)" by (simp only: of_int_le_iff)
  then have le: "(of_int d :: rat) \<le> float_max" by (simp only: float_max_int)
  have ge: "(1::rat) \<le> of_int d" using d1 by simp
  then have "\<bar>of_int d :: rat\<bar> \<le> float_max" using le by simp
  then obtain y where y: "rnd (of_int d) = Fl y" using rnd_finite by blast
  have "1 \<le> y" using ge y by (rule rnd_ge_one)
  with y show ?thesis by (auto simp add: float_of_int_def d_def)
qed

lemma exposure_short:
  assumes n: "rational_to_float bi v = Inr (Some (Fl q))"
    and q: "0 < q" "q < 1" and r: "rnd (1 / q) = Fl r"
  shows "\<exists>fd. float_of_int (round_half_even r) = Inr (Fl fd) \<and>
     format_exposure_time bi v = Inr (Some
       (if flt (fabs (fsub (rnd (1 / fd)) (Fl q))) (fmul (lit (2 / 100)) (Fl q))
        then ''1/'' @ show_int (round_half_even r) @ ''s''
        else format_fixed 3 (Fl q) @ ''s''))"
proof -
  have "1 \<le> 1 / q" using q by simp
  then have r1: "1 \<le> r" using r by (rule rnd_ge_one)
  have rm: "r \<le> float_max" using rnd_Fl_bound [OF r] by simp
  from float_of_int_round [OF r1 rm] obtain fd
    where fd: "float_of_int (round_half_even r) = Inr (Fl fd)" and fd1: "1 \<le> fd" by blast
  have "of_int 1 \<le> r" using r1 by simp
  then have "1 \<le> round_half_even r" by (rule rhe_ge)
  then have d: "0 < round_half_even r" by simp
  have fd0: "fd \<noteq> 0" using fd1 by simp
  have q0: "q \<noteq> 0" using q by simp
  have c: "\<not> fle (Fl q) (Fl 0)" "flt (Fl q) (Fl 1)"
    using q by (simp_all add: fle_def flt_def)
  have "format_exposure_time bi v = Inr (Some
       (if flt (fabs (fsub (rnd (1 / fd)) (Fl q))) (fmul (lit (2 / 100)) (Fl q))
        then ''1/'' @ show_int (round_half_even r) @ ''s''
        else format_fixed 3 (Fl q) @ ''s''))"
    unfolding format_exposure_time_def
    by (simp add: n c q0 r d fd fd0 del: fsub.simps fmul.simps fabs.simps format_fixed.simps)
  with fd show ?thesis by blast
qed

lemma exposure_long:
  assumes n: "rational_to_float bi v = Inr (Some (Fl q))"
    and q: "1 \<le> q" "q \<le> float_max"
  shows "\<exists>rt. float_of_int (round_half_even q) = Inr (Fl rt) \<and>
     format_exposure_time bi v = Inr (Some
       (if flt (fabs (fsub (Fl q) (Fl rt))) (lit (5 / 100))
        then show_int (round_half_even q) @ ''s''
        else format_fixed 1 (Fl q) @ ''s''))"
proof -
  from float_of_int_round [OF q] obtain rt
    where rt: "float_of_int (round_half_even q) = Inr (Fl rt)" by blast
  have c: "\<not> fle (Fl q) (Fl 0)" "\<not> flt (Fl q) (Fl 1)"
    using q by (simp_all add: fle_def flt_def)
  have "format_exposure_time bi v = Inr (Some
       (if flt (fabs (fsub (Fl q) (Fl rt))) (lit (5 / 100))
        then show_int (round_half_even q) @ ''s''
        else format_fixed 1 (Fl q) @ ''s''))"
    unfolding format_exposure_time_def
    by (simp add: n c rt del: fsub.simps fmul.simps fabs.simps format_fixed.simps)
  with rt show ?thesis by blast
qed

subsection \<open>The four exposure times of the specification\<close>

lemma rhe_numeral [simp]: "round_half_even (numeral n) = numeral n"
  using rhe_of_int [of "numeral n"] by simp

lemma rnd_001: "rnd (1 / 100) = Fl (5764607523034235 / 576460752303423488)"
  by (rule rnd_eval [where e = "- 7" and m = 5764607523034235]) simp_all

lemma recip_001: "rnd (576460752303423488 / 5764607523034235) = Fl (100)"
  by (rule rnd_eval [where e = "6" and m = 7036874417766400]) simp_all

lemma rnd_002: "rnd (1 / 50) = Fl (5764607523034235 / 288230376151711744)"
  by (rule rnd_eval [where e = "- 6" and m = 5764607523034235]) simp_all

lemma tol_001: "rnd (33230699894622898206100982035225 / 166153499473114484112975882535043072) = Fl (7378697629483821 / 36893488147419103232)"
  by (rule rnd_eval [where e = "- 13" and m = 7378697629483821]) simp_all

lemma rnd_100: "rnd (100) = Fl (100)"
  by (rule rnd_eval [where e = "6" and m = 7036874417766400]) simp_all

lemma rnd_03: "rnd (3 / 10) = Fl (5404319552844595 / 18014398509481984)"
  by (rule rnd_eval [where e = "- 2" and m = 5404319552844595]) simp_all

lemma recip_03: "rnd (18014398509481984 / 5404319552844595) = Fl (7505999378950827 / 2251799813685248)"
  by (rule rnd_eval [where e = "1" and m = 7505999378950827]) simp_all

lemma denom_03: "round_half_even (7505999378950827 / 2251799813685248) = 3"
  by (rule rhe_eval) simp_all

lemma rnd_3: "rnd (3) = Fl (3)"
  by (rule rnd_eval [where e = "1" and m = 6755399441055744]) simp_all

lemma rnd_third: "rnd (1 / 3) = Fl (6004799503160661 / 18014398509481984)"
  by (rule rnd_eval [where e = "- 2" and m = 6004799503160661]) simp_all

lemma diff_03: "rnd (300239975158033 / 9007199254740992) = Fl (300239975158033 / 9007199254740992)"
  by (rule rnd_eval [where e = "- 5" and m = 4803839602528528]) simp_all

lemma tol_03: "rnd (31153781151208965266779819709825 / 5192296858534827628530496329220096) = Fl (3458764513820541 / 576460752303423488)"
  by (rule rnd_eval [where e = "- 8" and m = 6917529027641082]) simp_all

lemma digits_03: "round_half_even (675539944105574375 / 2251799813685248) = 300"
  by (rule rhe_eval) simp_all

lemma rnd_005: "rnd (1 / 20) = Fl (3602879701896397 / 72057594037927936)"
  by (rule rnd_eval [where e = "- 5" and m = 7205759403792794]) simp_all

lemma rnd_23: "rnd (23 / 10) = Fl (2589569785738035 / 1125899906842624)"
  by (rule rnd_eval [where e = "1" and m = 5179139571476070]) simp_all

lemma round_23: "round_half_even (2589569785738035 / 1125899906842624) = 2"
  by (rule rhe_eval) simp_all

lemma diff_23: "rnd (337769972052787 / 1125899906842624) = Fl (337769972052787 / 1125899906842624)"
  by (rule rnd_eval [where e = "- 2" and m = 5404319552844592]) simp_all

lemma digits_23: "round_half_even (12947848928690175 / 562949953421312) = 23"
  by (rule rhe_eval) simp_all

lemma show_nat_examples:
  "show_nat 0 = ''0''" "show_nat 2 = ''2''" "show_nat 3 = ''3''" "show_nat 100 = ''100''"
  "show_nat 300 = ''300''"
  by (simp_all add: show_nat.simps)

subsection \<open>The formatting rule\<close>

lemma rnd_overflow:
  assumes "2 ^ 1024 \<le> x"
  shows "rnd x = PosInf"
proof -
  have pos: "0 < x" using assms by (rule less_le_trans [rotated]) simp
  have "(2::rat) powi 1024 \<le> x" using assms by simp
  then have i: "1024 \<le> ilog2 x" by (rule ilog2_ge [OF pos])
  then have "(2::rat) powi 1024 \<le> 2 powi ilog2 x"
    by (intro power_int_increasing) simp_all
  also have "\<dots> \<le> rd x" using i by (intro rd_ge_pow pos) simp
  finally have "2 ^ 1024 \<le> rd x" by simp
  then show ?thesis using pos by (simp add: rnd_def)
qed

lemma exposure_overflow:
  assumes "0 < q" "q < 1" "rnd (1 / q) = PosInf"
  shows "rational_to_float bi (PFloat (Fl q)) = Inr (Some (Fl q))
    \<and> flt (Fl 0) (Fl q)
    \<and> format_exposure_time bi (PFloat (Fl q)) = Inl OverflowError"
  using assms by (simp add: format_exposure_time_def rational_to_float_def fle_def flt_def)

text \<open>
  C4 (the claim as amended). The claim was stated for every raw value normalizing to a
  positive float. The code raises \<open>OverflowError\<close> where \<open>round\<close> meets an infinity:
  for \<open>t = inf\<close>, and for a positive \<open>t\<close> so small that \<open>1.0 / t\<close> overflows. As amended:
  for every raw value normalizing to a finite positive float \<open>t\<close>, (a) if \<open>t < 1.0\<close> and
  \<open>1.0 / t\<close> is finite, then with \<open>denom = round(1.0 / t)\<close> the conversion of \<open>denom\<close> and
  the division \<open>1.0 / denom\<close> succeed and the result is \<open>1/denom s\<close> when
  \<open>abs(1.0 / denom - t) < 0.02 * t\<close> and \<open>t\<close> with three decimals and \<open>s\<close> otherwise;
  (b) if \<open>t \<ge> 1.0\<close>, the result is \<open>round(t)\<close> and \<open>s\<close> when \<open>abs(t - round(t)) < 0.05\<close>
  and \<open>t\<close> with one decimal and \<open>s\<close> otherwise. All arithmetic is float arithmetic.
\<close>

theorem exposure_time_format:
  "rational_to_float bi v = Inr (Some (Fl q)) \<and> 0 < q \<and> q \<le> float_max \<longrightarrow>
     (q < 1 \<and> fdiv (Fl 1) (Fl q) = Inr (Fl r) \<longrightarrow>
        (\<exists>fd recip. float_of_int (round_half_even r) = Inr (Fl fd)
           \<and> fdiv (Fl 1) (Fl fd) = Inr recip
           \<and> format_exposure_time bi v = Inr (Some
               (if flt (fabs (fsub recip (Fl q))) (fmul (lit (2 / 100)) (Fl q))
                then ''1/'' @ show_int (round_half_even r) @ ''s''
                else format_fixed 3 (Fl q) @ ''s''))))
     \<and> (1 \<le> q \<longrightarrow>
        (\<exists>rt. float_of_int (round_half_even q) = Inr (Fl rt)
           \<and> format_exposure_time bi v = Inr (Some
               (if flt (fabs (fsub (Fl q) (Fl rt))) (lit (5 / 100))
                then show_int (round_half_even q) @ ''s''
                else format_fixed 1 (Fl q) @ ''s''))))"
proof (intro impI conjI)
  assume h: "rational_to_float bi v = Inr (Some (Fl q)) \<and> 0 < q \<and> q \<le> float_max"
    and s: "q < 1 \<and> fdiv (Fl 1) (Fl q) = Inr (Fl r)"
  from h s have r: "rnd (1 / q) = Fl r" by simp
  from h s r have "\<exists>fd. float_of_int (round_half_even r) = Inr (Fl fd) \<and>
     format_exposure_time bi v = Inr (Some
       (if flt (fabs (fsub (rnd (1 / fd)) (Fl q))) (fmul (lit (2 / 100)) (Fl q))
        then ''1/'' @ show_int (round_half_even r) @ ''s''
        else format_fixed 3 (Fl q) @ ''s''))"
    by (intro exposure_short) simp_all
  then obtain fd where fd: "float_of_int (round_half_even r) = Inr (Fl fd)"
    and f: "format_exposure_time bi v = Inr (Some
       (if flt (fabs (fsub (rnd (1 / fd)) (Fl q))) (fmul (lit (2 / 100)) (Fl q))
        then ''1/'' @ show_int (round_half_even r) @ ''s''
        else format_fixed 3 (Fl q) @ ''s''))"
    by blast
  have "1 \<le> 1 / q" using h s by simp
  then have "1 \<le> r" using r by (rule rnd_ge_one)
  moreover have "r \<le> float_max" using rnd_Fl_bound [OF r] by simp
  ultimately obtain y where "float_of_int (round_half_even r) = Inr (Fl y)" "1 \<le> y"
    using float_of_int_round by blast
  with fd have "fd \<noteq> 0" by simp
  then have "fdiv (Fl 1) (Fl fd) = Inr (rnd (1 / fd))" by simp
  with fd f show "\<exists>fd recip. float_of_int (round_half_even r) = Inr (Fl fd)
           \<and> fdiv (Fl 1) (Fl fd) = Inr recip
           \<and> format_exposure_time bi v = Inr (Some
               (if flt (fabs (fsub recip (Fl q))) (fmul (lit (2 / 100)) (Fl q))
                then ''1/'' @ show_int (round_half_even r) @ ''s''
                else format_fixed 3 (Fl q) @ ''s''))"
    by blast
next
  assume h: "rational_to_float bi v = Inr (Some (Fl q)) \<and> 0 < q \<and> q \<le> float_max"
    and l: "1 \<le> q"
  from h l show "\<exists>rt. float_of_int (round_half_even q) = Inr (Fl rt)
           \<and> format_exposure_time bi v = Inr (Some
               (if flt (fabs (fsub (Fl q) (Fl rt))) (lit (5 / 100))
                then show_int (round_half_even q) @ ''s''
                else format_fixed 1 (Fl q) @ ''s''))"
    by (intro exposure_long) simp_all
qed

theorem exposure_time_format_witness:
  "format_exposure_time plain_builtins (PFloat (lit (1 / 100))) = Inr (Some ''1/100s'')
   \<and> format_exposure_time plain_builtins (PFloat (lit (3 / 10))) = Inr (Some ''0.300s'')
   \<and> format_exposure_time plain_builtins (PFloat (lit 2)) = Inr (Some ''2s'')
   \<and> format_exposure_time plain_builtins (PFloat (lit (23 / 10))) = Inr (Some ''2.3s'')"
proof -
  note t = exposure_time_format [where bi = plain_builtins]
  have a: "format_exposure_time plain_builtins (PFloat (lit (1 / 100))) = Inr (Some ''1/100s'')"
  proof -
    have n: "rational_to_float plain_builtins (PFloat (lit (1 / 100))) = Inr (Some (Fl (5764607523034235 / 576460752303423488)))"
      by (simp add: rational_to_float_def lit_def rnd_001)
    have b: "0 < (5764607523034235 / 576460752303423488 :: rat)" "(5764607523034235 / 576460752303423488 :: rat) \<le> float_max" "(5764607523034235 / 576460752303423488 :: rat) < 1"
      by (simp_all add: float_max_def)
    have d: "fdiv (Fl 1) (Fl (5764607523034235 / 576460752303423488)) = Inr (Fl 100)"
      by (simp add: recip_001)
    from t [where v = "PFloat (lit (1 / 100))" and q = "5764607523034235 / 576460752303423488" and r = 100] n b d
    obtain fd recip where fd: "float_of_int (round_half_even 100) = Inr (Fl fd)"
      and rc: "fdiv (Fl 1) (Fl fd) = Inr recip"
      and f: "format_exposure_time plain_builtins (PFloat (lit (1 / 100))) = Inr (Some
               (if flt (fabs (fsub recip (Fl (5764607523034235 / 576460752303423488)))) (fmul (lit (2 / 100)) (Fl (5764607523034235 / 576460752303423488)))
                then ''1/'' @ show_int (round_half_even 100) @ ''s''
                else format_fixed 3 (Fl (5764607523034235 / 576460752303423488)) @ ''s''))"
      by blast
    from fd have "fd = 100" by (simp add: float_of_int_def rnd_100)
    with rc have "recip = Fl (5764607523034235 / 576460752303423488)" by (simp add: rnd_001)
    then show ?thesis
      unfolding f
      by (simp add: lit_def rnd_002 tol_001 rnd_small flt_def show_int_def show_nat_examples
          del: format_fixed.simps)
  qed
  have b: "format_exposure_time plain_builtins (PFloat (lit (3 / 10))) = Inr (Some ''0.300s'')"
  proof -
    have n: "rational_to_float plain_builtins (PFloat (lit (3 / 10))) = Inr (Some (Fl (5404319552844595 / 18014398509481984)))"
      by (simp add: rational_to_float_def lit_def rnd_03)
    have b: "0 < (5404319552844595 / 18014398509481984 :: rat)" "(5404319552844595 / 18014398509481984 :: rat) \<le> float_max" "(5404319552844595 / 18014398509481984 :: rat) < 1"
      by (simp_all add: float_max_def)
    have d: "fdiv (Fl 1) (Fl (5404319552844595 / 18014398509481984)) = Inr (Fl (7505999378950827 / 2251799813685248))"
      by (simp add: recip_03)
    from t [where v = "PFloat (lit (3 / 10))" and q = "5404319552844595 / 18014398509481984" and r = "7505999378950827 / 2251799813685248"] n b d
    obtain fd recip where fd: "float_of_int (round_half_even (7505999378950827 / 2251799813685248)) = Inr (Fl fd)"
      and rc: "fdiv (Fl 1) (Fl fd) = Inr recip"
      and f: "format_exposure_time plain_builtins (PFloat (lit (3 / 10))) = Inr (Some
               (if flt (fabs (fsub recip (Fl (5404319552844595 / 18014398509481984)))) (fmul (lit (2 / 100)) (Fl (5404319552844595 / 18014398509481984)))
                then ''1/'' @ show_int (round_half_even (7505999378950827 / 2251799813685248)) @ ''s''
                else format_fixed 3 (Fl (5404319552844595 / 18014398509481984)) @ ''s''))"
      by blast
    from fd have "fd = 3" by (simp add: float_of_int_def denom_03 rnd_3)
    with rc have "recip = Fl (6004799503160661 / 18014398509481984)" by (simp add: rnd_third)
    then show ?thesis
      unfolding f
      by (simp add: lit_def rnd_002 tol_03 diff_03 flt_def digits_03 zero_pad_def
          show_nat_examples)
  qed
  have c: "format_exposure_time plain_builtins (PFloat (lit 2)) = Inr (Some ''2s'')"
  proof -
    have n: "rational_to_float plain_builtins (PFloat (lit 2)) = Inr (Some (Fl 2))"
      by (simp add: rational_to_float_def lit_def rnd_small)
    have b: "0 < (2 :: rat)" "(2 :: rat) \<le> float_max" "1 \<le> (2 :: rat)"
      by (simp_all add: float_max_def)
    from t [where v = "PFloat (lit 2)" and q = 2] n b
    obtain rt where rt: "float_of_int (round_half_even 2) = Inr (Fl rt)"
      and f: "format_exposure_time plain_builtins (PFloat (lit 2)) = Inr (Some
               (if flt (fabs (fsub (Fl 2) (Fl rt))) (lit (5 / 100))
                then show_int (round_half_even 2) @ ''s''
                else format_fixed 1 (Fl 2) @ ''s''))"
      by blast
    from rt have "rt = 2" by (simp add: float_of_int_small)
    then show ?thesis
      unfolding f
      by (simp add: lit_def rnd_005 rnd_small flt_def show_int_def show_nat_examples
          del: format_fixed.simps)
  qed
  have d: "format_exposure_time plain_builtins (PFloat (lit (23 / 10))) = Inr (Some ''2.3s'')"
  proof -
    have n: "rational_to_float plain_builtins (PFloat (lit (23 / 10))) = Inr (Some (Fl (2589569785738035 / 1125899906842624)))"
      by (simp add: rational_to_float_def lit_def rnd_23)
    have b: "0 < (2589569785738035 / 1125899906842624 :: rat)" "(2589569785738035 / 1125899906842624 :: rat) \<le> float_max" "1 \<le> (2589569785738035 / 1125899906842624 :: rat)"
      by (simp_all add: float_max_def)
    from t [where v = "PFloat (lit (23 / 10))" and q = "2589569785738035 / 1125899906842624"] n b
    obtain rt where rt: "float_of_int (round_half_even (2589569785738035 / 1125899906842624)) = Inr (Fl rt)"
      and f: "format_exposure_time plain_builtins (PFloat (lit (23 / 10))) = Inr (Some
               (if flt (fabs (fsub (Fl (2589569785738035 / 1125899906842624)) (Fl rt))) (lit (5 / 100))
                then show_int (round_half_even (2589569785738035 / 1125899906842624)) @ ''s''
                else format_fixed 1 (Fl (2589569785738035 / 1125899906842624)) @ ''s''))"
      by blast
    from rt have "rt = 2" by (simp add: round_23 float_of_int_small)
    then show ?thesis
      unfolding f
      by (simp add: lit_def rnd_005 diff_23 flt_def digits_23 zero_pad_def show_nat_examples)
  qed
  from a b c d show ?thesis by blast
qed

text \<open>
  The claim as stated fails at the positive float \<open>inf\<close>, and at the smallest positive
  float \<open>2 ^ -1074\<close>, whose reciprocal overflows to \<open>inf\<close>: \<open>round\<close> raises
  \<open>OverflowError\<close> and the formatter returns nothing.
\<close>

theorem exposure_time_counterexample:
  "rational_to_float plain_builtins (PFloat PosInf) = Inr (Some PosInf)
   \<and> flt (Fl 0) PosInf
   \<and> format_exposure_time plain_builtins (PFloat PosInf) = Inl OverflowError
   \<and> rational_to_float plain_builtins (PFloat (Fl (1 / 2 ^ 1074))) = Inr (Some (Fl (1 / 2 ^ 1074)))
   \<and> flt (Fl 0) (Fl (1 / 2 ^ 1074))
   \<and> format_exposure_time plain_builtins (PFloat (Fl (1 / 2 ^ 1074))) = Inl OverflowError"
proof -
  have r: "rnd (1 / (1 / 2 ^ 1074)) = PosInf" by (rule rnd_overflow) simp
  have b: "(0::rat) < 1 / 2 ^ 1074" "(1::rat) / 2 ^ 1074 < 1" by simp_all
  have 1: "rational_to_float plain_builtins (PFloat PosInf) = Inr (Some PosInf)"
    by (simp add: rational_to_float_def)
  have 2: "flt (Fl 0) PosInf"
    by (simp add: flt_def)
  have 3: "format_exposure_time plain_builtins (PFloat PosInf) = Inl OverflowError"
    by (simp add: format_exposure_time_def 1 fle_def flt_def)
  from 1 2 3 exposure_overflow [OF b r, where bi = plain_builtins] show ?thesis by blast
qed

subsection \<open>The template without a metadata font size\<close>

lemma lit_14: "lit (7 / 50) = Fl (1261007895663739 / 9007199254740992)"
  unfolding lit_def by (rule rnd_eval [where e = "- 3" and m = 5044031582654956]) simp_all

lemma lit_055: "lit (11 / 200) = Fl (7926335344172073 / 144115188075855872)"
  unfolding lit_def by (rule rnd_eval [where e = "- 5" and m = 7926335344172073]) simp_all

text \<open>
  \<open>int(r * n)\<close> returns for every ratio \<open>r\<close> between -1 and 1 and every integer \<open>n\<close>
  that converts to a float.
\<close>

lemma ratio_px_finite:
  assumes k: "tpl k = Some (TFloat (Fl c))" and c: "\<bar>c\<bar> \<le> 1"
    and n: "\<bar>of_int n :: rat\<bar> \<le> float_max"
  shows "\<exists>m. ratio_px tpl k n = Inr m"
proof -
  from rnd_finite [OF n] obtain fw where fw: "rnd (of_int n) = Fl fw" by blast
  have b: "\<bar>fw\<bar> \<le> float_max" using fw by (rule rnd_Fl_bound)
  have "\<bar>c * fw\<bar> = \<bar>c\<bar> * \<bar>fw\<bar>" by (rule abs_mult)
  also have "\<dots> \<le> 1 * \<bar>fw\<bar>" using c by (intro mult_right_mono) simp_all
  finally have "\<bar>c * fw\<bar> \<le> float_max" using b by simp
  from rnd_finite [OF this] obtain p where p: "rnd (c * fw) = Fl p" by blast
  have "ratio_px tpl k n = Inr (trunc p)"
    by (simp add: ratio_px_def tpl_get_def k float_of_int_def fw p)
  then show ?thesis by blast
qed

lemma minimal_black_entries:
  "minimal_black ''border_px'' = Some (TInt 0)"
  "minimal_black ''bottom_band_ratio'' = Some (TFloat (Fl (1261007895663739 / 9007199254740992)))"
  "minimal_black ''bg_color'' = Some (TTuple [0, 0, 0])"
  "minimal_black ''brand_font_size_ratio'' = Some (TFloat (Fl (7926335344172073 / 144115188075855872)))"
  "minimal_black ''meta_font_size_ratio'' = None"
  by (simp_all add: minimal_black_def lit_14 lit_055)

text \<open>
  With the template \<open>minimal_black\<close> the layout stops at the metadata font size: the
  brand font size is computed, then \<open>tpl["meta_font_size_ratio"]\<close> raises \<open>KeyError\<close>.
\<close>

lemma layout_minimal_black:
  assumes "\<bar>of_int canvas_w :: rat\<bar> \<le> float_max"
  shows "layout env minimal_black logo_path fonts brand_text meta border_px canvas_w canvas_h h
           = Inl KeyError"
proof -
  have "\<exists>m. ratio_px minimal_black ''brand_font_size_ratio'' canvas_w = Inr m"
    using minimal_black_entries(4) _ assms by (rule ratio_px_finite) simp
  then obtain b where b: "ratio_px minimal_black ''brand_font_size_ratio'' canvas_w = Inr b"
    by blast
  have m: "ratio_px minimal_black ''meta_font_size_ratio'' canvas_w = Inl KeyError"
    by (simp add: ratio_px_def tpl_get_def minimal_black_entries)
  show ?thesis by (simp add: layout_def Let_def b m)
qed

text \<open>
  Every source image that opens and whose EXIF extraction returns makes
  \<open>make_framed_image\<close> raise \<open>KeyError\<close> under the template \<open>minimal_black\<close>, whatever
  the output path, the logo and the fonts.
\<close>

lemma minimal_black_key_error:
  assumes src: "open_image env img_path = Some src"
    and ex: "extract_camera_params (py env) (img_exif src) = Inr params"
    and w: "\<bar>of_int (fst (img_size src)) :: rat\<bar> \<le> float_max"
  shows "make_framed_image env img_path out_path logo_path ''minimal_black'' fonts = Inl KeyError"
proof -
  obtain w h where wh: "img_size src = (w, h)" by (cases "img_size src")
  have t: "template_of ''minimal_black'' = minimal_black"
    by (simp add: template_of_def DeFAULT_TEMPLATE_def)
  from w wh have fin: "\<bar>of_int w :: rat\<bar> \<le> float_max" by simp
  have "\<exists>m. ratio_px minimal_black ''bottom_band_ratio'' w = Inr m"
    using minimal_black_entries(2) _ fin by (rule ratio_px_finite) simp
  then obtain bh where bh: "ratio_px minimal_black ''bottom_band_ratio'' w = Inr bh"
    by blast
  have cd: "canvas_dims minimal_black w h = Inr (0, w, h + bh)"
    by (simp add: canvas_dims_def tpl_get_def minimal_black_entries bh)
  have bg: "tpl_get minimal_black ''bg_color'' = Inr (TTuple [0, 0, 0])"
    by (simp add: tpl_get_def minimal_black_entries)
  show ?thesis
    by (simp add: make_framed_image_def Let_def src wh ex t cd bg layout_minimal_black [OF fin])
qed

text \<open>
  C9 (the code departs from the claim). The claim: for every source image, frame
  composition with the template \<open>minimal_black\<close> raises \<open>KeyError\<close>, the template lacking
  \<open>meta_font_size_ratio\<close>. The code: for a photograph whose EXIF data has a focal length,
  \<open>extract_camera_params\<close> raises \<open>NameError\<close> (the unbound name \<open>f\<close> of the focal-length
  formatter) before the template is read, and that exception leaves
  \<open>make_framed_image\<close>. A photograph without a focal length gets the \<open>KeyError\<close> of the
  claim.
\<close>

theorem minimal_black_raises:
  "make_framed_image example_env ''focal.jpg'' ''out.jpg'' None ''minimal_black'' None
     = Inl NameError
   \<and> make_framed_image example_env ''plain.jpg'' ''out.jpg'' None ''minimal_black'' None
     = Inl KeyError"
proof -
  have r50: "rnd 50 = Fl 50" using lit_50 by (simp add: lit_def)
  have "rational_to_float plain_builtins (PRational 50) = Inr (Some (Fl 50))"
    by (simp add: rational_to_float_def r50)
  then have f: "format_focal plain_builtins (PRational 50) = Inl NameError"
    by (rule format_focal_positive) (simp add: flt_def)
  have e: "extract_camera_params plain_builtins [''FocalLength'' \<mapsto> PRational 50] = Inl NameError"
    by (simp add: extract_camera_params_def exif_get_def Let_def f)
  have 1: "make_framed_image example_env ''focal.jpg'' ''out.jpg'' None ''minimal_black'' None
     = Inl NameError"
    by (simp add: make_framed_image_def Let_def example_env_def e)
  have o: "open_image example_env ''plain.jpg'' = Some \<lparr>img_size = (1000, 600), img_exif = Map.empty\<rparr>"
    "py example_env = plain_builtins"
    by (simp_all add: example_env_def)
  have 2: "make_framed_image example_env ''plain.jpg'' ''out.jpg'' None ''minimal_black'' None
     = Inl KeyError"
    by (rule minimal_black_key_error [OF o(1)]) (simp_all add: o(2) extract_plain float_max_def)
  show ?thesis using 1 2 by simp
qed

end
